theory Spec2Isabelle
  imports Main "HOL-Library.Word"
begin

section \<open>Values of the EVM\<close>

text \<open>
  Addresses are 160-bit words, \<open>block.timestamp\<close> is a 256-bit word and the stored
  timestamps are \<open>uint64\<close>; the cast \<open>uint64(block.timestamp)\<close> truncates and is
  \<open>ucast\<close>. A Solidity \<open>string\<close> and a \<open>bytes\<close> value are byte sequences, here
  \<open>string\<close> (an Isabelle \<open>char\<close> is one byte), so \<open>bytes(s).length\<close> is \<open>length s\<close>.
  The encrypted handles \<open>euint64\<close> and \<open>externalEuint64\<close> are \<open>bytes32\<close> values the
  contracts never inspect.

  Record ids, array lengths and loop counters are \<open>uint256\<close> in the source. They index
  or count the elements of a storage array, whose length cannot reach \<open>2 ^ 256\<close>, so
  no arithmetic on them overflows and they are modelled as \<open>nat\<close>.

  A parameter or local variable of the source whose name is also a field of a struct
  (or a constant of HOL, as \<open>id\<close>) carries a prime here: \<open>keyName'\<close>, \<open>id'\<close>.
\<close>

type_synonym address = "160 word"
type_synonym uint256 = "256 word"
type_synonym uint64 = "64 word"
type_synonym bytes32 = "256 word"
type_synonym bytes = string
type_synonym euint64 = "256 word"
type_synonym externalEuint64 = "256 word"

text \<open>The transaction context a call reads: \<open>msg.sender\<close>, \<open>block.timestamp\<close>, \<open>address(this)\<close>.\<close>

record env =
  msg_sender :: address
  block_timestamp :: uint256
  address_this :: address

section \<open>Errors\<close>

text \<open>
  Every \<open>require\<close> of the two contracts is one constructor, named after its message:
  \<^item> \<open>KeyNameEmpty\<close>: "Key name cannot be empty"; \<open>KeyNameTooLong\<close>: "Key name too long";
  \<^item> \<open>InvalidStoreSignature\<close>: "Invalid store signature"; \<open>InvalidUpdateSignature\<close>:
    "Invalid update signature"; \<open>InvalidRecordSignature\<close>: "Invalid record signature";
  \<^item> \<open>KeyDoesNotExist\<close>: "Key does not exist"; \<open>LogDoesNotExist\<close>: "Log does not exist";
  \<^item> \<open>NotTheOwner\<close>: "Not the owner"; \<open>CannotUpdateSameTimestamp\<close>: "Cannot update same timestamp";
  \<^item> \<open>LocationEmpty\<close>: "Location cannot be empty"; \<open>CargoEmpty\<close>: "Cargo description cannot be empty".
  \<open>ECDSAError\<close> is a revert raised inside \<open>ECDSA.recover\<close>, and \<open>FHEInputRejected\<close> a
  revert raised inside \<open>FHE.fromExternal\<close>.
\<close>

datatype ecdsa_error =
    ECDSAInvalidSignature
  | ECDSAInvalidSignatureLength
  | ECDSAInvalidSignatureS

datatype error =
    KeyNameEmpty
  | KeyNameTooLong
  | InvalidStoreSignature
  | InvalidUpdateSignature
  | InvalidRecordSignature
  | KeyDoesNotExist
  | LogDoesNotExist
  | NotTheOwner
  | CannotUpdateSameTimestamp
  | LocationEmpty
  | CargoEmpty
  | ECDSAError ecdsa_error
  | FHEInputRejected

text \<open>The error taxonomy of the specification, and the class of each revert.\<close>

datatype error_kind =
    ValidationError
  | AuthorizationError
  | InvalidCiphertextProof
  | NotFound
  | NotOwner
  | StaleTimestamp
  | SignatureRecoveryError

fun kind :: "error \<Rightarrow> error_kind" where
  "kind KeyNameEmpty = ValidationError"
| "kind KeyNameTooLong = ValidationError"
| "kind LocationEmpty = ValidationError"
| "kind CargoEmpty = ValidationError"
| "kind InvalidStoreSignature = AuthorizationError"
| "kind InvalidUpdateSignature = AuthorizationError"
| "kind InvalidRecordSignature = AuthorizationError"
| "kind KeyDoesNotExist = NotFound"
| "kind LogDoesNotExist = NotFound"
| "kind NotTheOwner = NotOwner"
| "kind CannotUpdateSameTimestamp = StaleTimestamp"
| "kind (ECDSAError _) = SignatureRecoveryError"
| "kind FHEInputRejected = InvalidCiphertextProof"

section \<open>External libraries\<close>

text \<open>
  The contracts call code that is not theirs: the EVM's \<open>keccak256\<close>, OpenZeppelin's
  \<open>MessageHashUtils.toEthSignedMessageHash\<close> and \<open>ECDSA.recover\<close> (which reverts on
  a malformed signature) and Zama's \<open>FHE.fromExternal\<close> (which reverts on a rejected
  input proof). They are parameters of the model; every theorem holds for all of them.
\<close>

record externals =
  keccak256 :: "bytes \<Rightarrow> bytes32"
  toEthSignedMessageHash :: "bytes32 \<Rightarrow> bytes32"
  ECDSA_recover :: "bytes32 \<Rightarrow> bytes \<Rightarrow> ecdsa_error + address"
  FHE_fromExternal :: "env \<Rightarrow> externalEuint64 \<Rightarrow> bytes \<Rightarrow> euint64 option"

text \<open>
  \<open>abi.encode\<close> of static 32-byte values (\<open>bytes32\<close>, a left-padded \<open>address\<close>,
  \<open>uint256\<close>): each value as 32 big-endian bytes, concatenated.
\<close>

definition bytes_of_word256 :: "256 word \<Rightarrow> bytes" where
  "bytes_of_word256 w = map (\<lambda>i. char_of (unat (drop_bit (8 * (31 - i)) w))) [0..<32]"

definition abi_encode :: "256 word list \<Rightarrow> bytes" where
  "abi_encode ws = concat (map bytes_of_word256 ws)"

section \<open>FrostKeyChain\<close>

record KeyEntry =
  owner :: address
  keyName :: string
  encryptedValue :: euint64
  createdAt :: uint64
  updatedAt :: uint64

datatype kc_event =
    KeyStored nat address string uint64
  | KeyUpdated nat address string uint64

text \<open>
  The storage of the contract: \<open>p_keys\<close> is the private array \<open>_keys\<close> and \<open>p_keysOf\<close>
  the private mapping \<open>_keysOf\<close> (a name cannot start with an underscore here). A
  mapping reads \<open>[]\<close> at an address never written. With them, the events the contract
  has emitted and the access grants it has issued through \<open>FHE.allowThis\<close> and
  \<open>FHE.allow\<close> (pairs of handle and account).
\<close>

record kc_state =
  p_keys :: "KeyEntry list"
  p_keysOf :: "address \<Rightarrow> nat list"
  kc_events :: "kc_event list"
  kc_acl :: "(euint64 \<times> address) set"

definition kc_init :: kc_state where
  "kc_init = \<lparr>p_keys = [], p_keysOf = (\<lambda>_. []), kc_events = [], kc_acl = {}\<rparr>"

definition STORE_KEY_TYPEHASH :: "externals \<Rightarrow> bytes32" where
  "STORE_KEY_TYPEHASH X = keccak256 X ''FrostKeyChain.store(address owner,string keyName)''"

definition UPDATE_KEY_TYPEHASH :: "externals \<Rightarrow> bytes32" where
  "UPDATE_KEY_TYPEHASH X = keccak256 X ''FrostKeyChain.update(address owner,uint256 id)''"

definition verifyStoreSignature :: "externals \<Rightarrow> env \<Rightarrow> string \<Rightarrow> bytes \<Rightarrow> error + unit" where
  "verifyStoreSignature X e keyName' signature =
     (let digest = keccak256 X
            (abi_encode [STORE_KEY_TYPEHASH X, ucast (msg_sender e), keccak256 X keyName']);
          hash = toEthSignedMessageHash X digest
      in case ECDSA_recover X hash signature of
           Inl err \<Rightarrow> Inl (ECDSAError err)
         | Inr signer \<Rightarrow>
             if signer = msg_sender e then Inr () else Inl InvalidStoreSignature)"

definition verifyUpdateSignature :: "externals \<Rightarrow> env \<Rightarrow> nat \<Rightarrow> bytes \<Rightarrow> error + unit" where
  "verifyUpdateSignature X e id' signature =
     (let digest = keccak256 X
            (abi_encode [UPDATE_KEY_TYPEHASH X, ucast (msg_sender e), of_nat id']);
          hash = toEthSignedMessageHash X digest
      in case ECDSA_recover X hash signature of
           Inl err \<Rightarrow> Inl (ECDSAError err)
         | Inr signer \<Rightarrow>
             if signer = msg_sender e then Inr () else Inl InvalidUpdateSignature)"

definition storeKey ::
  "externals \<Rightarrow> env \<Rightarrow> string \<Rightarrow> externalEuint64 \<Rightarrow> bytes \<Rightarrow> bytes \<Rightarrow> kc_state \<Rightarrow> error + kc_state" where
  "storeKey X e keyName' encValue inputProof signature s =
     (if \<not> length keyName' > 0 then Inl KeyNameEmpty
      else if \<not> length keyName' \<le> 100 then Inl KeyNameTooLong
      else case verifyStoreSignature X e keyName' signature of
        Inl err \<Rightarrow> Inl err
      | Inr _ \<Rightarrow>
         (case FHE_fromExternal X e encValue inputProof of
            None \<Rightarrow> Inl FHEInputRejected
          | Some encryptedValue' \<Rightarrow>
             (let entry = \<lparr>owner = msg_sender e, keyName = keyName',
                           encryptedValue = encryptedValue',
                           createdAt = ucast (block_timestamp e),
                           updatedAt = ucast (block_timestamp e)\<rparr>;
                  keys = p_keys s @ [entry];
                  id' = length keys - 1
              in Inr \<lparr>p_keys = keys,
                      p_keysOf = (p_keysOf s)(msg_sender e := p_keysOf s (msg_sender e) @ [id']),
                      kc_events = kc_events s @ [KeyStored id' (msg_sender e) keyName' (createdAt entry)],
                      kc_acl = kc_acl s \<union> {(encryptedValue (keys ! id'), address_this e),
                                             (encryptedValue (keys ! id'), msg_sender e)}\<rparr>)))"

definition updateKey ::
  "externals \<Rightarrow> env \<Rightarrow> nat \<Rightarrow> externalEuint64 \<Rightarrow> bytes \<Rightarrow> bytes \<Rightarrow> kc_state \<Rightarrow> error + kc_state" where
  "updateKey X e id' encValue inputProof signature s =
     (if \<not> id' < length (p_keys s) then Inl KeyDoesNotExist
      else if \<not> owner (p_keys s ! id') = msg_sender e then Inl NotTheOwner
      else if \<not> updatedAt (p_keys s ! id') < ucast (block_timestamp e)
        then Inl CannotUpdateSameTimestamp
      else case verifyUpdateSignature X e id' signature of
        Inl err \<Rightarrow> Inl err
      | Inr _ \<Rightarrow>
         (case FHE_fromExternal X e encValue inputProof of
            None \<Rightarrow> Inl FHEInputRejected
          | Some encryptedValue' \<Rightarrow>
             (let keys = (p_keys s)[id' := (p_keys s ! id')
                            \<lparr>encryptedValue := encryptedValue',
                             updatedAt := ucast (block_timestamp e)\<rparr>]
              in Inr \<lparr>p_keys = keys,
                      p_keysOf = p_keysOf s,
                      kc_events = kc_events s @
                        [KeyUpdated id' (msg_sender e) (keyName (keys ! id')) (updatedAt (keys ! id'))],
                      kc_acl = kc_acl s \<union> {(encryptedValue (keys ! id'), address_this e),
                                             (encryptedValue (keys ! id'), msg_sender e)}\<rparr>)))"

text \<open>The views.\<close>

definition getKeyCountByOwner :: "kc_state \<Rightarrow> address \<Rightarrow> nat" where
  "getKeyCountByOwner s a = length (p_keysOf s a)"

definition getKeyIdsByOwner :: "kc_state \<Rightarrow> address \<Rightarrow> nat list" where
  "getKeyIdsByOwner s a = p_keysOf s a"

definition getKeyMeta :: "kc_state \<Rightarrow> nat \<Rightarrow> error + (address \<times> string \<times> uint64 \<times> uint64)" where
  "getKeyMeta s id' =
     (if \<not> id' < length (p_keys s) then Inl KeyDoesNotExist
      else let entry = p_keys s ! id'
           in Inr (owner entry, keyName entry, createdAt entry, updatedAt entry))"

definition getEncryptedValue :: "kc_state \<Rightarrow> nat \<Rightarrow> error + euint64" where
  "getEncryptedValue s id' =
     (if \<not> id' < length (p_keys s) then Inl KeyDoesNotExist
      else Inr (encryptedValue (p_keys s ! id')))"

definition getTotalKeyCount :: "kc_state \<Rightarrow> nat" where
  "getTotalKeyCount s = length (p_keys s)"

text \<open>
  A transaction is a call in a context. A call that reverts leaves the state of the
  chain as it was; that is the EVM's rule, not the contract's.
\<close>

datatype kc_call =
    StoreKey string externalEuint64 bytes bytes
  | UpdateKey nat externalEuint64 bytes bytes

fun kc_exec :: "externals \<Rightarrow> env \<Rightarrow> kc_call \<Rightarrow> kc_state \<Rightarrow> error + kc_state" where
  "kc_exec X e (StoreKey keyName' encValue inputProof signature) s =
     storeKey X e keyName' encValue inputProof signature s"
| "kc_exec X e (UpdateKey id' encValue inputProof signature) s =
     updateKey X e id' encValue inputProof signature s"

definition kc_tx :: "externals \<Rightarrow> kc_state \<Rightarrow> env \<times> kc_call \<Rightarrow> kc_state" where
  "kc_tx X s tx = (case kc_exec X (fst tx) (snd tx) s of Inl _ \<Rightarrow> s | Inr s' \<Rightarrow> s')"

fun kc_run :: "externals \<Rightarrow> kc_state \<Rightarrow> (env \<times> kc_call) list \<Rightarrow> kc_state" where
  "kc_run X s [] = s"
| "kc_run X s (tx # txs) = kc_run X (kc_tx X s tx) txs"

text \<open>The number of \<open>storeKey\<close> transactions of a run that did not revert.\<close>

fun is_StoreKey :: "kc_call \<Rightarrow> bool" where
  "is_StoreKey (StoreKey _ _ _ _) = True"
| "is_StoreKey (UpdateKey _ _ _ _) = False"

fun kc_appended :: "externals \<Rightarrow> kc_state \<Rightarrow> (env \<times> kc_call) list \<Rightarrow> nat" where
  "kc_appended X s [] = 0"
| "kc_appended X s (tx # txs) =
     (if is_StoreKey (snd tx) \<and> \<not> isl (kc_exec X (fst tx) (snd tx) s) then 1 else 0)
     + kc_appended X (kc_tx X s tx) txs"

section \<open>ColdChainTracker\<close>

record TemperatureLog =
  recorder :: address
  location :: string
  cargo :: string
  encryptedTemperature :: euint64
  timestamp :: uint64
  isWarning :: bool

datatype cc_event =
    TemperatureRecorded nat address string string uint64 bool

text \<open>
  The storage of the tracker, \<open>p_logs\<close> for \<open>_logs\<close> and \<open>p_logsOf\<close> for \<open>_logsOf\<close>,
  with its events and access grants.
\<close>

record cc_state =
  p_logs :: "TemperatureLog list"
  p_logsOf :: "address \<Rightarrow> nat list"
  cc_events :: "cc_event list"
  cc_acl :: "(euint64 \<times> address) set"

definition cc_init :: cc_state where
  "cc_init = \<lparr>p_logs = [], p_logsOf = (\<lambda>_. []), cc_events = [], cc_acl = {}\<rparr>"

definition RECORD_TEMP_TYPEHASH :: "externals \<Rightarrow> bytes32" where
  "RECORD_TEMP_TYPEHASH X =
     keccak256 X ''ColdChainTracker.record(address recorder,string location,string cargo)''"

definition verifyRecordSignature ::
  "externals \<Rightarrow> env \<Rightarrow> string \<Rightarrow> string \<Rightarrow> bytes \<Rightarrow> error + unit" where
  "verifyRecordSignature X e location' cargo' signature =
     (let digest = keccak256 X
            (abi_encode [RECORD_TEMP_TYPEHASH X, ucast (msg_sender e),
                         keccak256 X location', keccak256 X cargo']);
          hash = toEthSignedMessageHash X digest
      in case ECDSA_recover X hash signature of
           Inl err \<Rightarrow> Inl (ECDSAError err)
         | Inr signer \<Rightarrow>
             if signer = msg_sender e then Inr () else Inl InvalidRecordSignature)"

definition recordTemperature ::
  "externals \<Rightarrow> env \<Rightarrow> string \<Rightarrow> string \<Rightarrow> externalEuint64 \<Rightarrow> bytes \<Rightarrow> bool \<Rightarrow> bytes
     \<Rightarrow> cc_state \<Rightarrow> error + cc_state" where
  "recordTemperature X e location' cargo' encTemp inputProof isWarning' signature s =
     (if \<not> length location' > 0 then Inl LocationEmpty
      else if \<not> length cargo' > 0 then Inl CargoEmpty
      else case verifyRecordSignature X e location' cargo' signature of
        Inl err \<Rightarrow> Inl err
      | Inr _ \<Rightarrow>
         (case FHE_fromExternal X e encTemp inputProof of
            None \<Rightarrow> Inl FHEInputRejected
          | Some encryptedTemperature' \<Rightarrow>
             (let log = \<lparr>recorder = msg_sender e, location = location', cargo = cargo',
                         encryptedTemperature = encryptedTemperature',
                         timestamp = ucast (block_timestamp e),
                         isWarning = isWarning'\<rparr>;
                  logs = p_logs s @ [log];
                  id' = length logs - 1
              in Inr \<lparr>p_logs = logs,
                      p_logsOf = (p_logsOf s)(msg_sender e := p_logsOf s (msg_sender e) @ [id']),
                      cc_events = cc_events s @
                        [TemperatureRecorded id' (msg_sender e) location' cargo' (timestamp log) isWarning'],
                      cc_acl = cc_acl s \<union> {(encryptedTemperature (logs ! id'), address_this e),
                                             (encryptedTemperature (logs ! id'), msg_sender e)}\<rparr>)))"

definition getLogMeta ::
  "cc_state \<Rightarrow> nat \<Rightarrow> error + (address \<times> string \<times> string \<times> uint64 \<times> bool)" where
  "getLogMeta s id' =
     (if \<not> id' < length (p_logs s) then Inl LogDoesNotExist
      else let log = p_logs s ! id'
           in Inr (recorder log, location log, cargo log, timestamp log, isWarning log))"

definition getLogCountByRecorder :: "cc_state \<Rightarrow> address \<Rightarrow> nat" where
  "getLogCountByRecorder s a = length (p_logsOf s a)"

definition getLogIdsByRecorder :: "cc_state \<Rightarrow> address \<Rightarrow> nat list" where
  "getLogIdsByRecorder s a = p_logsOf s a"

text \<open>
  The loop of \<open>getAllLogIds\<close> over the memory array \<open>ids\<close>, allocated zeroed with
  \<open>_logs.length\<close> cells; the write \<open>ids[i] = i\<close> is always in range, since the loop
  guard is \<open>i < _logs.length\<close>.
\<close>

function getAllLogIds_loop :: "cc_state \<Rightarrow> nat \<Rightarrow> nat list \<Rightarrow> nat list" where
  "getAllLogIds_loop s i ids =
     (if i < length (p_logs s) then getAllLogIds_loop s (i + 1) (ids[i := i]) else ids)"
  by pat_completeness auto
termination
  by (relation "measure (\<lambda>(s, i, ids). length (p_logs s) - i)") auto

definition getAllLogIds :: "cc_state \<Rightarrow> nat list" where
  "getAllLogIds s = getAllLogIds_loop s 0 (replicate (length (p_logs s)) 0)"

definition getEncryptedTemperature :: "cc_state \<Rightarrow> nat \<Rightarrow> error + euint64" where
  "getEncryptedTemperature s id' =
     (if \<not> id' < length (p_logs s) then Inl LogDoesNotExist
      else Inr (encryptedTemperature (p_logs s ! id')))"

definition getTotalLogCount :: "cc_state \<Rightarrow> nat" where
  "getTotalLogCount s = length (p_logs s)"

function getStats_loop :: "cc_state \<Rightarrow> nat \<Rightarrow> nat \<Rightarrow> nat" where
  "getStats_loop s i warningCount =
     (if i < length (p_logs s)
      then getStats_loop s (i + 1)
             (if isWarning (p_logs s ! i) then warningCount + 1 else warningCount)
      else warningCount)"
  by pat_completeness auto
termination
  by (relation "measure (\<lambda>(s, i, warningCount). length (p_logs s) - i)") auto

definition getStats :: "cc_state \<Rightarrow> nat \<times> nat" where
  "getStats s =
     (let totalLogs = length (p_logs s);
          warningCount = getStats_loop s 0 0
      in (totalLogs, warningCount))"

text \<open>Transactions of the tracker: \<open>recordTemperature\<close> is its only mutating call.\<close>

datatype cc_call =
    RecordTemperature string string externalEuint64 bytes bool bytes

fun cc_exec :: "externals \<Rightarrow> env \<Rightarrow> cc_call \<Rightarrow> cc_state \<Rightarrow> error + cc_state" where
  "cc_exec X e (RecordTemperature location' cargo' encTemp inputProof isWarning' signature) s =
     recordTemperature X e location' cargo' encTemp inputProof isWarning' signature s"

definition cc_tx :: "externals \<Rightarrow> cc_state \<Rightarrow> env \<times> cc_call \<Rightarrow> cc_state" where
  "cc_tx X s tx = (case cc_exec X (fst tx) (snd tx) s of Inl _ \<Rightarrow> s | Inr s' \<Rightarrow> s')"

fun cc_run :: "externals \<Rightarrow> cc_state \<Rightarrow> (env \<times> cc_call) list \<Rightarrow> cc_state" where
  "cc_run X s [] = s"
| "cc_run X s (tx # txs) = cc_run X (cc_tx X s tx) txs"

fun cc_appended :: "externals \<Rightarrow> cc_state \<Rightarrow> (env \<times> cc_call) list \<Rightarrow> nat" where
  "cc_appended X s [] = 0"
| "cc_appended X s (tx # txs) =
     (if \<not> isl (cc_exec X (fst tx) (snd tx) s) then 1 else 0)
     + cc_appended X (cc_tx X s tx) txs"

text \<open>The recursive equations of the two loops are unfolded by hand, one iteration at a time.\<close>

declare getAllLogIds_loop.simps [simp del]
declare getStats_loop.simps [simp del]

section \<open>Auxiliary definitions\<close>

text \<open>
  The owner index agrees with the record array: the ids listed for an address are the
  positions of the records of that address, in increasing order.
\<close>

definition kc_index_ok :: "kc_state \<Rightarrow> bool" where
  "kc_index_ok s \<longleftrightarrow>
     (\<forall>a. p_keysOf s a = filter (\<lambda>i. owner (p_keys s ! i) = a) [0..<length (p_keys s)])"

definition cc_index_ok :: "cc_state \<Rightarrow> bool" where
  "cc_index_ok s \<longleftrightarrow>
     (\<forall>a. p_logsOf s a = filter (\<lambda>i. recorder (p_logs s ! i) = a) [0..<length (p_logs s)])"

text \<open>
  The hash from which \<open>_verifyStoreSignature\<close> and \<open>_verifyRecordSignature\<close> recover the
  signer: the digest of type hash, sender and content hashes, wrapped as a signed message.
\<close>

definition storeSignedHash :: "externals \<Rightarrow> env \<Rightarrow> string \<Rightarrow> bytes32" where
  "storeSignedHash X e keyName' =
     toEthSignedMessageHash X (keccak256 X
       (abi_encode [STORE_KEY_TYPEHASH X, ucast (msg_sender e), keccak256 X keyName']))"

definition recordSignedHash :: "externals \<Rightarrow> env \<Rightarrow> string \<Rightarrow> string \<Rightarrow> bytes32" where
  "recordSignedHash X e location' cargo' =
     toEthSignedMessageHash X (keccak256 X
       (abi_encode [RECORD_TEMP_TYPEHASH X, ucast (msg_sender e),
                    keccak256 X location', keccak256 X cargo']))"

text \<open>
  Concrete stand-ins for the external libraries, a context and two accounts, on which the
  theorems are instantiated: a non-empty signature of \<open>k\<close> bytes recovers to the address
  \<open>k\<close>, and an input with a non-empty proof is accepted, its handle kept.
\<close>

definition demo_externals :: externals where
  "demo_externals =
     \<lparr>keccak256 = (\<lambda>b. of_nat (length b)),
      toEthSignedMessageHash = (\<lambda>h. h + 1),
      ECDSA_recover = (\<lambda>h sg. if sg = [] then Inl ECDSAInvalidSignatureLength
                               else Inr (of_nat (length sg))),
      FHE_fromExternal = (\<lambda>e h p. if p = [] then None else Some h)\<rparr>"

definition alice :: address where "alice = 1"
definition bob :: address where "bob = 2"

definition demo_env :: "address \<Rightarrow> nat \<Rightarrow> env" where
  "demo_env a t = \<lparr>msg_sender = a, block_timestamp = of_nat t, address_this = 192\<rparr>"

section \<open>What a successful call does\<close>

lemma storeKey_success:
  assumes "storeKey X e n ev p sg s = Inr s'"
  shows "\<exists>h. FHE_fromExternal X e ev p = Some h \<and>
    s' = \<lparr>p_keys = p_keys s @ [\<lparr>owner = msg_sender e, keyName = n, encryptedValue = h,
                 createdAt = ucast (block_timestamp e), updatedAt = ucast (block_timestamp e)\<rparr>],
          p_keysOf = (p_keysOf s)(msg_sender e := p_keysOf s (msg_sender e) @ [length (p_keys s)]),
          kc_events = kc_events s @ [KeyStored (length (p_keys s)) (msg_sender e) n (ucast (block_timestamp e))],
          kc_acl = kc_acl s \<union> {(h, address_this e), (h, msg_sender e)}\<rparr>"
  using assms
  by (auto simp: storeKey_def Let_def split: if_splits sum.splits option.splits)

lemma storeKey_success_guards:
  assumes "storeKey X e n ev p sg s = Inr s'"
  shows "0 < length n \<and> length n \<le> 100 \<and> verifyStoreSignature X e n sg = Inr ()"
  using assms
  by (auto simp: storeKey_def Let_def split: if_splits sum.splits option.splits)

lemma updateKey_success:
  assumes "updateKey X e i ev p sg s = Inr s'"
  shows "\<exists>h. FHE_fromExternal X e ev p = Some h \<and> i < length (p_keys s) \<and>
    owner (p_keys s ! i) = msg_sender e \<and>
    updatedAt (p_keys s ! i) < ucast (block_timestamp e) \<and>
    verifyUpdateSignature X e i sg = Inr () \<and>
    s' = \<lparr>p_keys = (p_keys s)[i := (p_keys s ! i)\<lparr>encryptedValue := h, updatedAt := ucast (block_timestamp e)\<rparr>],
          p_keysOf = p_keysOf s,
          kc_events = kc_events s @ [KeyUpdated i (msg_sender e) (keyName (p_keys s ! i)) (ucast (block_timestamp e))],
          kc_acl = kc_acl s \<union> {(h, address_this e), (h, msg_sender e)}\<rparr>"
  using assms
  by (auto simp: updateKey_def Let_def split: if_splits sum.splits option.splits)

lemma recordTemperature_success:
  assumes "recordTemperature X e l c ev p w sg s = Inr s'"
  shows "\<exists>h. FHE_fromExternal X e ev p = Some h \<and> 0 < length l \<and> 0 < length c \<and>
    verifyRecordSignature X e l c sg = Inr () \<and>
    s' = \<lparr>p_logs = p_logs s @ [\<lparr>recorder = msg_sender e, location = l, cargo = c,
                 encryptedTemperature = h, timestamp = ucast (block_timestamp e), isWarning = w\<rparr>],
          p_logsOf = (p_logsOf s)(msg_sender e := p_logsOf s (msg_sender e) @ [length (p_logs s)]),
          cc_events = cc_events s @ [TemperatureRecorded (length (p_logs s)) (msg_sender e) l c (ucast (block_timestamp e)) w],
          cc_acl = cc_acl s \<union> {(h, address_this e), (h, msg_sender e)}\<rparr>"
  using assms
  by (auto simp: recordTemperature_def Let_def split: if_splits sum.splits option.splits)

section \<open>Runs and loops\<close>

lemma kc_tx_StoreKey:
  "kc_tx X s (e, StoreKey n ev p sg) =
     (case storeKey X e n ev p sg s of Inl _ \<Rightarrow> s | Inr s' \<Rightarrow> s')"
  by (simp add: kc_tx_def)

lemma kc_tx_UpdateKey:
  "kc_tx X s (e, UpdateKey i ev p sg) =
     (case updateKey X e i ev p sg s of Inl _ \<Rightarrow> s | Inr s' \<Rightarrow> s')"
  by (simp add: kc_tx_def)

lemma length_storeKey:
  "storeKey X e n ev p sg s = Inr s' \<Longrightarrow> length (p_keys s') = Suc (length (p_keys s))"
  by (drule storeKey_success) auto

lemma length_updateKey:
  "updateKey X e i ev p sg s = Inr s' \<Longrightarrow> length (p_keys s') = length (p_keys s)"
  by (drule updateKey_success) auto

lemma length_kc_tx:
  "length (p_keys (kc_tx X s tx)) =
     length (p_keys s) + (if is_StoreKey (snd tx) \<and> \<not> isl (kc_exec X (fst tx) (snd tx) s) then 1 else 0)"
proof (cases tx)
  case (Pair e c)
  show ?thesis
  proof (cases c)
    case (StoreKey n ev p sg)
    with Pair show ?thesis
      by (cases "storeKey X e n ev p sg s") (simp_all add: kc_tx_def length_storeKey)
  next
    case (UpdateKey i ev p sg)
    with Pair show ?thesis
      by (cases "updateKey X e i ev p sg s") (simp_all add: kc_tx_def length_updateKey)
  qed
qed

lemma length_kc_run:
  "length (p_keys (kc_run X s txs)) = length (p_keys s) + kc_appended X s txs"
proof (induction txs arbitrary: s)
  case Nil
  show ?case by simp
next
  case (Cons tx txs)
  have "length (p_keys (kc_run X s (tx # txs))) = length (p_keys (kc_tx X s tx)) + kc_appended X (kc_tx X s tx) txs"
    using Cons.IH [of "kc_tx X s tx"] by simp
  then show ?case
    by (simp add: length_kc_tx)
qed

lemma length_recordTemperature:
  "recordTemperature X e l c ev p w sg s = Inr s' \<Longrightarrow> length (p_logs s') = Suc (length (p_logs s))"
  by (drule recordTemperature_success) auto

lemma length_cc_tx:
  "length (p_logs (cc_tx X s tx)) =
     length (p_logs s) + (if \<not> isl (cc_exec X (fst tx) (snd tx) s) then 1 else 0)"
proof (cases tx)
  case (Pair e c)
  show ?thesis
  proof (cases c)
    case (RecordTemperature l c' ev p w sg)
    with Pair show ?thesis
      by (cases "recordTemperature X e l c' ev p w sg s")
         (simp_all add: cc_tx_def length_recordTemperature)
  qed
qed

lemma length_cc_run:
  "length (p_logs (cc_run X s txs)) = length (p_logs s) + cc_appended X s txs"
proof (induction txs arbitrary: s)
  case Nil
  show ?case by simp
next
  case (Cons tx txs)
  have "length (p_logs (cc_run X s (tx # txs))) = length (p_logs (cc_tx X s tx)) + cc_appended X (cc_tx X s tx) txs"
    using Cons.IH [of "cc_tx X s tx"] by simp
  then show ?case
    by (simp add: length_cc_tx)
qed

lemma getAllLogIds_loop_inv:
  "i \<le> length (p_logs s) \<Longrightarrow> length ids = length (p_logs s) \<Longrightarrow> take i ids = [0..<i]
     \<Longrightarrow> getAllLogIds_loop s i ids = [0..<length (p_logs s)]"
proof (induction s i ids rule: getAllLogIds_loop.induct)
  case (1 s i ids)
  show ?case
  proof (cases "i < length (p_logs s)")
    case True
    have t: "take (i + 1) (ids[i := i]) = [0..<i + 1]"
      using True "1.prems" by (simp add: take_Suc_conv_app_nth)
    have "getAllLogIds_loop s (i + 1) (ids[i := i]) = [0..<length (p_logs s)]"
      using True "1.prems"(2) t by (intro "1.IH") simp_all
    with True show ?thesis by (subst getAllLogIds_loop.simps) simp
  next
    case False
    with "1.prems" have "i = length ids" by simp
    with "1.prems"(2,3) have "ids = [0..<length (p_logs s)]" by simp
    with False show ?thesis by (subst getAllLogIds_loop.simps) simp
  qed
qed

lemma getAllLogIds_eq: "getAllLogIds s = [0..<length (p_logs s)]"
  unfolding getAllLogIds_def by (rule getAllLogIds_loop_inv) simp_all

lemma getStats_loop_eq:
  "getStats_loop s i w = w + length (filter isWarning (drop i (p_logs s)))"
proof (induction s i w rule: getStats_loop.induct)
  case (1 s i w)
  show ?case
  proof (cases "i < length (p_logs s)")
    case True
    have d: "drop i (p_logs s) = p_logs s ! i # drop (i + 1) (p_logs s)"
      using True by (simp add: Cons_nth_drop_Suc)
    have "getStats_loop s i w = getStats_loop s (i + 1) (if isWarning (p_logs s ! i) then w + 1 else w)"
      using True by (subst getStats_loop.simps) simp
    also have "\<dots> = (if isWarning (p_logs s ! i) then w + 1 else w)
                      + length (filter isWarning (drop (i + 1) (p_logs s)))"
      using True by (rule "1.IH")
    also have "\<dots> = w + length (filter isWarning (drop i (p_logs s)))"
      by (simp add: d)
    finally show ?thesis .
  next
    case False
    then show ?thesis by (subst getStats_loop.simps) simp
  qed
qed

lemma getStats_eq: "getStats s = (length (p_logs s), length (filter isWarning (p_logs s)))"
  by (simp add: getStats_def getStats_loop_eq)

section \<open>The owner index\<close>

lemma filter_upt_cong:
  "(\<And>i. i < n \<Longrightarrow> P i = Q i) \<Longrightarrow> filter P [0..<n] = filter Q [0..<n]"
  by (rule filter_cong) simp_all

lemma nth_update_fields:
  "owner (xs[i := (xs ! i)\<lparr>encryptedValue := h, updatedAt := u\<rparr>] ! j) = owner (xs ! j)"
  "keyName (xs[i := (xs ! i)\<lparr>encryptedValue := h, updatedAt := u\<rparr>] ! j) = keyName (xs ! j)"
  "createdAt (xs[i := (xs ! i)\<lparr>encryptedValue := h, updatedAt := u\<rparr>] ! j) = createdAt (xs ! j)"
proof -
  let ?ys = "xs[i := (xs ! i)\<lparr>encryptedValue := h, updatedAt := u\<rparr>]"
  have "owner (?ys ! j) = owner (xs ! j) \<and> keyName (?ys ! j) = keyName (xs ! j)
          \<and> createdAt (?ys ! j) = createdAt (xs ! j)"
  proof (cases "i < length xs")
    case True
    then show ?thesis by (cases "i = j") simp_all
  next
    case False
    then have "?ys = xs" by (simp add: list_update_beyond)
    then show ?thesis by simp
  qed
  then show "owner (?ys ! j) = owner (xs ! j)" "keyName (?ys ! j) = keyName (xs ! j)"
    "createdAt (?ys ! j) = createdAt (xs ! j)"
    by simp_all
qed

lemma kc_index_ok_init: "kc_index_ok kc_init"
  by (simp add: kc_index_ok_def kc_init_def)

lemma kc_index_ok_storeKey:
  assumes ok: "kc_index_ok s" and st: "storeKey X e n ev p sg s = Inr s'"
  shows "kc_index_ok s'"
proof -
  from storeKey_success [OF st] obtain h where
    s': "s' = \<lparr>p_keys = p_keys s @ [\<lparr>owner = msg_sender e, keyName = n, encryptedValue = h,
                 createdAt = ucast (block_timestamp e), updatedAt = ucast (block_timestamp e)\<rparr>],
          p_keysOf = (p_keysOf s)(msg_sender e := p_keysOf s (msg_sender e) @ [length (p_keys s)]),
          kc_events = kc_events s @ [KeyStored (length (p_keys s)) (msg_sender e) n (ucast (block_timestamp e))],
          kc_acl = kc_acl s \<union> {(h, address_this e), (h, msg_sender e)}\<rparr>"
    by blast
  show ?thesis
    unfolding kc_index_ok_def
  proof
    fix a
    have old: "filter (\<lambda>i. owner (p_keys s' ! i) = a) [0..<length (p_keys s)]
                 = filter (\<lambda>i. owner (p_keys s ! i) = a) [0..<length (p_keys s)]"
      by (rule filter_upt_cong) (simp add: s' nth_append)
    have len: "length (p_keys s') = Suc (length (p_keys s))"
      by (simp add: s')
    have new: "owner (p_keys s' ! length (p_keys s)) = msg_sender e"
      by (simp add: s')
    have idx: "p_keysOf s' a = (if a = msg_sender e then p_keysOf s a @ [length (p_keys s)] else p_keysOf s a)"
      by (simp add: s')
    have "p_keysOf s a = filter (\<lambda>i. owner (p_keys s ! i) = a) [0..<length (p_keys s)]"
      using ok by (simp add: kc_index_ok_def)
    then show "p_keysOf s' a = filter (\<lambda>i. owner (p_keys s' ! i) = a) [0..<length (p_keys s')]"
      using old new idx by (auto simp: len)
  qed
qed

lemma kc_index_ok_updateKey:
  assumes ok: "kc_index_ok s" and st: "updateKey X e i ev p sg s = Inr s'"
  shows "kc_index_ok s'"
proof -
  from updateKey_success [OF st] obtain h where
    i: "i < length (p_keys s)" and
    s': "s' = \<lparr>p_keys = (p_keys s)[i := (p_keys s ! i)\<lparr>encryptedValue := h, updatedAt := ucast (block_timestamp e)\<rparr>],
          p_keysOf = p_keysOf s,
          kc_events = kc_events s @ [KeyUpdated i (msg_sender e) (keyName (p_keys s ! i)) (ucast (block_timestamp e))],
          kc_acl = kc_acl s \<union> {(h, address_this e), (h, msg_sender e)}\<rparr>"
    by blast
  show ?thesis
    unfolding kc_index_ok_def
  proof
    fix a
    have old: "filter (\<lambda>j. owner (p_keys s' ! j) = a) [0..<length (p_keys s)]
                 = filter (\<lambda>j. owner (p_keys s ! j) = a) [0..<length (p_keys s)]"
      by (rule filter_upt_cong) (simp add: s' nth_update_fields)
    have len: "length (p_keys s') = length (p_keys s)"
      by (simp add: s')
    have idx: "p_keysOf s' a = p_keysOf s a"
      by (simp add: s')
    have "p_keysOf s a = filter (\<lambda>i. owner (p_keys s ! i) = a) [0..<length (p_keys s)]"
      using ok by (simp add: kc_index_ok_def)
    then show "p_keysOf s' a = filter (\<lambda>i. owner (p_keys s' ! i) = a) [0..<length (p_keys s')]"
      using old idx by (simp add: len)
  qed
qed

lemma kc_index_ok_tx: "kc_index_ok s \<Longrightarrow> kc_index_ok (kc_tx X s tx)"
proof (cases tx)
  case (Pair e c)
  assume ok: "kc_index_ok s"
  show ?thesis
  proof (cases c)
    case (StoreKey n ev p sg)
    with Pair ok show ?thesis
      by (cases "storeKey X e n ev p sg s") (simp_all add: kc_tx_def kc_index_ok_storeKey)
  next
    case (UpdateKey i ev p sg)
    with Pair ok show ?thesis
      by (cases "updateKey X e i ev p sg s") (simp_all add: kc_tx_def kc_index_ok_updateKey)
  qed
qed

lemma kc_index_ok_run: "kc_index_ok s \<Longrightarrow> kc_index_ok (kc_run X s txs)"
  by (induction txs arbitrary: s) (simp_all add: kc_index_ok_tx)

lemma cc_index_ok_init: "cc_index_ok cc_init"
  by (simp add: cc_index_ok_def cc_init_def)

lemma cc_index_ok_recordTemperature:
  assumes ok: "cc_index_ok s" and st: "recordTemperature X e l c ev p w sg s = Inr s'"
  shows "cc_index_ok s'"
proof -
  from recordTemperature_success [OF st] obtain h where
    s': "s' = \<lparr>p_logs = p_logs s @ [\<lparr>recorder = msg_sender e, location = l, cargo = c,
                 encryptedTemperature = h, timestamp = ucast (block_timestamp e), isWarning = w\<rparr>],
          p_logsOf = (p_logsOf s)(msg_sender e := p_logsOf s (msg_sender e) @ [length (p_logs s)]),
          cc_events = cc_events s @ [TemperatureRecorded (length (p_logs s)) (msg_sender e) l c (ucast (block_timestamp e)) w],
          cc_acl = cc_acl s \<union> {(h, address_this e), (h, msg_sender e)}\<rparr>"
    by blast
  show ?thesis
    unfolding cc_index_ok_def
  proof
    fix a
    have old: "filter (\<lambda>i. recorder (p_logs s' ! i) = a) [0..<length (p_logs s)]
                 = filter (\<lambda>i. recorder (p_logs s ! i) = a) [0..<length (p_logs s)]"
      by (rule filter_upt_cong) (simp add: s' nth_append)
    have len: "length (p_logs s') = Suc (length (p_logs s))"
      by (simp add: s')
    have new: "recorder (p_logs s' ! length (p_logs s)) = msg_sender e"
      by (simp add: s')
    have idx: "p_logsOf s' a = (if a = msg_sender e then p_logsOf s a @ [length (p_logs s)] else p_logsOf s a)"
      by (simp add: s')
    have "p_logsOf s a = filter (\<lambda>i. recorder (p_logs s ! i) = a) [0..<length (p_logs s)]"
      using ok by (simp add: cc_index_ok_def)
    then show "p_logsOf s' a = filter (\<lambda>i. recorder (p_logs s' ! i) = a) [0..<length (p_logs s')]"
      using old new idx by (auto simp: len)
  qed
qed

lemma cc_index_ok_tx: "cc_index_ok s \<Longrightarrow> cc_index_ok (cc_tx X s tx)"
proof (cases tx)
  case (Pair e c)
  assume ok: "cc_index_ok s"
  show ?thesis
  proof (cases c)
    case (RecordTemperature l c' ev p w sg)
    with Pair ok show ?thesis
      by (cases "recordTemperature X e l c' ev p w sg s")
         (simp_all add: cc_tx_def cc_index_ok_recordTemperature)
  qed
qed

lemma cc_index_ok_run: "cc_index_ok s \<Longrightarrow> cc_index_ok (cc_run X s txs)"
  by (induction txs arbitrary: s) (simp_all add: cc_index_ok_tx)

section \<open>Signature checks\<close>

lemma verifyStoreSignature_alt:
  "verifyStoreSignature X e n sg =
     (case ECDSA_recover X (storeSignedHash X e n) sg of
        Inl err \<Rightarrow> Inl (ECDSAError err)
      | Inr signer \<Rightarrow> if signer = msg_sender e then Inr () else Inl InvalidStoreSignature)"
  by (simp add: verifyStoreSignature_def storeSignedHash_def)

lemma verifyRecordSignature_alt:
  "verifyRecordSignature X e l c sg =
     (case ECDSA_recover X (recordSignedHash X e l c) sg of
        Inl err \<Rightarrow> Inl (ECDSAError err)
      | Inr signer \<Rightarrow> if signer = msg_sender e then Inr () else Inl InvalidRecordSignature)"
  by (simp add: verifyRecordSignature_def recordSignedHash_def)

lemmas demo_defs = demo_externals_def demo_env_def alice_def bob_def

lemmas demo_kc_defs = demo_defs kc_tx_def storeKey_def updateKey_def verifyStoreSignature_def
  verifyUpdateSignature_def kc_init_def

lemmas demo_cc_defs = demo_defs cc_tx_def recordTemperature_def verifyRecordSignature_def cc_init_def

section \<open>The claims\<close>

text \<open>
  C1. Starting from the empty ledger, after any sequence of transactions the total count
  (\<open>getTotalKeyCount\<close>, \<open>getTotalLogCount\<close>) is the number of appends that succeeded, and
  \<open>getAllLogIds\<close> is the dense list from 0 to that number minus one; in particular a
  sequence of N appends that all succeed gives N and \<open>[0, \<dots>, N - 1]\<close>. A successful
  append keeps the old records in place and puts the new one at the index equal to the
  array length before the push; that index is the id it records in the owner index and
  in the event.
\<close>

theorem C1_append_count_and_dense_ids:
  "getTotalKeyCount (kc_run X kc_init ktxs) = kc_appended X kc_init ktxs
   \<and> getTotalLogCount (cc_run X cc_init ctxs) = cc_appended X cc_init ctxs
   \<and> getAllLogIds (cc_run X cc_init ctxs) = [0..<cc_appended X cc_init ctxs]
   \<and> (storeKey X e n ev p sg s = Inr s' \<longrightarrow>
         length (p_keys s') = Suc (length (p_keys s))
         \<and> take (length (p_keys s)) (p_keys s') = p_keys s
         \<and> getKeyIdsByOwner s' (msg_sender e) = getKeyIdsByOwner s (msg_sender e) @ [length (p_keys s)]
         \<and> last (kc_events s') = KeyStored (length (p_keys s)) (msg_sender e) n (createdAt (p_keys s' ! length (p_keys s))))
   \<and> (recordTemperature X e' l c ev' p' w sg' t = Inr t' \<longrightarrow>
         length (p_logs t') = Suc (length (p_logs t))
         \<and> take (length (p_logs t)) (p_logs t') = p_logs t
         \<and> getLogIdsByRecorder t' (msg_sender e') = getLogIdsByRecorder t (msg_sender e') @ [length (p_logs t)]
         \<and> last (cc_events t') = TemperatureRecorded (length (p_logs t)) (msg_sender e') l c
               (timestamp (p_logs t' ! length (p_logs t))) w)"
proof -
  have a: "getTotalKeyCount (kc_run X kc_init ktxs) = kc_appended X kc_init ktxs"
    by (simp add: getTotalKeyCount_def length_kc_run kc_init_def)
  have n: "length (p_logs (cc_run X cc_init ctxs)) = cc_appended X cc_init ctxs"
    by (simp add: length_cc_run cc_init_def)
  have b: "getTotalLogCount (cc_run X cc_init ctxs) = cc_appended X cc_init ctxs"
    by (simp add: getTotalLogCount_def n)
  have c: "getAllLogIds (cc_run X cc_init ctxs) = [0..<cc_appended X cc_init ctxs]"
    by (simp add: getAllLogIds_eq n)
  have d: "length (p_keys s') = Suc (length (p_keys s))
         \<and> take (length (p_keys s)) (p_keys s') = p_keys s
         \<and> getKeyIdsByOwner s' (msg_sender e) = getKeyIdsByOwner s (msg_sender e) @ [length (p_keys s)]
         \<and> last (kc_events s') = KeyStored (length (p_keys s)) (msg_sender e) n (createdAt (p_keys s' ! length (p_keys s)))"
    if "storeKey X e n ev p sg s = Inr s'"
    using storeKey_success [OF that] by (auto simp: getKeyIdsByOwner_def)
  have f: "length (p_logs t') = Suc (length (p_logs t))
         \<and> take (length (p_logs t)) (p_logs t') = p_logs t
         \<and> getLogIdsByRecorder t' (msg_sender e') = getLogIdsByRecorder t (msg_sender e') @ [length (p_logs t)]
         \<and> last (cc_events t') = TemperatureRecorded (length (p_logs t)) (msg_sender e') l c
               (timestamp (p_logs t' ! length (p_logs t))) w"
    if "recordTemperature X e' l c ev' p' w sg' t = Inr t'"
    using recordTemperature_success [OF that] by (auto simp: getLogIdsByRecorder_def)
  from a b c d f show ?thesis by blast
qed

theorem C1_witness:
  "kc_appended demo_externals kc_init
      [(demo_env alice 100, StoreKey ''k1'' 7 ''p'' ''a''),
       (demo_env bob 101, StoreKey ''k2'' 8 ''p'' ''ab'')] = 2
   \<and> getTotalKeyCount (kc_run demo_externals kc_init
      [(demo_env alice 100, StoreKey ''k1'' 7 ''p'' ''a''),
       (demo_env bob 101, StoreKey ''k2'' 8 ''p'' ''ab'')]) = 2
   \<and> getAllLogIds (cc_run demo_externals cc_init
      [(demo_env alice 100, RecordTemperature ''Shanghai Port'' ''Frozen Seafood'' 7 ''p'' False ''a''),
       (demo_env alice 101, RecordTemperature ''Singapore Hub'' ''Frozen Seafood'' 8 ''p'' True ''a'')]) = [0, 1]
   \<and> storeKey demo_externals (demo_env alice 100) ''k1'' 7 ''p'' ''a'' kc_init
       = Inr (kc_tx demo_externals kc_init (demo_env alice 100, StoreKey ''k1'' 7 ''p'' ''a''))
   \<and> getKeyIdsByOwner (kc_tx demo_externals kc_init (demo_env alice 100, StoreKey ''k1'' 7 ''p'' ''a'')) alice = [0]
   \<and> recordTemperature demo_externals (demo_env alice 100) ''Shanghai Port'' ''Frozen Seafood'' 7 ''p'' False ''a'' cc_init
       = Inr (cc_tx demo_externals cc_init
           (demo_env alice 100, RecordTemperature ''Shanghai Port'' ''Frozen Seafood'' 7 ''p'' False ''a''))
   \<and> getLogIdsByRecorder (cc_tx demo_externals cc_init
           (demo_env alice 100, RecordTemperature ''Shanghai Port'' ''Frozen Seafood'' 7 ''p'' False ''a'')) alice = [0]"
  using C1_append_count_and_dense_ids [of demo_externals
      "[(demo_env alice 100, StoreKey ''k1'' 7 ''p'' ''a''),
        (demo_env bob 101, StoreKey ''k2'' 8 ''p'' ''ab'')]"
      "[(demo_env alice 100, RecordTemperature ''Shanghai Port'' ''Frozen Seafood'' 7 ''p'' False ''a''),
        (demo_env alice 101, RecordTemperature ''Singapore Hub'' ''Frozen Seafood'' 8 ''p'' True ''a'')]"
      "demo_env alice 100" "''k1''" 7 "''p''" "''a''" kc_init
      "kc_tx demo_externals kc_init (demo_env alice 100, StoreKey ''k1'' 7 ''p'' ''a'')"
      "demo_env alice 100" "''Shanghai Port''" "''Frozen Seafood''" 7 "''p''" False "''a''" cc_init
      "cc_tx demo_externals cc_init
           (demo_env alice 100, RecordTemperature ''Shanghai Port'' ''Frozen Seafood'' 7 ''p'' False ''a'')"]
  by (simp add: demo_kc_defs demo_cc_defs getKeyIdsByOwner_def getLogIdsByRecorder_def
        getTotalKeyCount_def)

lemma storeKey_wrong_signer:
  assumes "ECDSA_recover X (storeSignedHash X e n) sg = Inr a" and "a \<noteq> msg_sender e"
  shows "storeKey X e n ev p sg s =
           Inl (if length n = 0 then KeyNameEmpty
                else if 100 < length n then KeyNameTooLong
                else InvalidStoreSignature)"
  using assms by (simp add: storeKey_def verifyStoreSignature_alt)

lemma recordTemperature_wrong_signer:
  assumes "ECDSA_recover X (recordSignedHash X e l c) sg = Inr a" and "a \<noteq> msg_sender e"
  shows "recordTemperature X e l c ev p w sg s =
           Inl (if length l = 0 then LocationEmpty
                else if length c = 0 then CargoEmpty
                else InvalidRecordSignature)"
  using assms by (simp add: recordTemperature_def verifyRecordSignature_alt)

text \<open>
  Validation runs before the signature check: a call with an empty name (or location)
  whose signature recovers to another account reverts with the validation message, not
  with "Invalid store signature" ("Invalid record signature").
\<close>

theorem C2_counterexample:
  "ECDSA_recover demo_externals (storeSignedHash demo_externals (demo_env alice 100) '''') ''ab'' = Inr bob
   \<and> bob \<noteq> msg_sender (demo_env alice 100)
   \<and> storeKey demo_externals (demo_env alice 100) '''' 7 ''p'' ''ab'' kc_init = Inl KeyNameEmpty
   \<and> kind KeyNameEmpty = ValidationError
   \<and> kind KeyNameEmpty \<noteq> AuthorizationError
   \<and> ECDSA_recover demo_externals
        (recordSignedHash demo_externals (demo_env alice 100) '''' ''Frozen Seafood'') ''ab'' = Inr bob
   \<and> recordTemperature demo_externals (demo_env alice 100) '''' ''Frozen Seafood'' 7 ''p'' False ''ab'' cc_init
        = Inl LocationEmpty
   \<and> kind LocationEmpty \<noteq> AuthorizationError"
  by (simp add: demo_defs storeKey_def recordTemperature_def)

text \<open>
  C2 (as amended). An append call (\<open>storeKey\<close>, \<open>recordTemperature\<close>) whose signature
  recovers to an identity different from \<open>msg.sender\<close> always fails, and the rejection is
  atomic: the state after the transaction is the state before it, so the total count is
  not increased and no id is added to any owner's index. The failure is an
  AuthorizationError when the metadata passes validation (a key name of 1 to 100 bytes;
  a non-empty location and cargo), and the ValidationError of the metadata otherwise.
\<close>

theorem C2_wrong_signer_rejected:
  "(ECDSA_recover X (storeSignedHash X e n) sg = Inr a \<and> a \<noteq> msg_sender e \<longrightarrow>
      storeKey X e n ev p sg s =
        Inl (if length n = 0 then KeyNameEmpty
             else if 100 < length n then KeyNameTooLong
             else InvalidStoreSignature)
      \<and> (0 < length n \<and> length n \<le> 100 \<longrightarrow>
            (\<exists>err. storeKey X e n ev p sg s = Inl err \<and> kind err = AuthorizationError))
      \<and> kc_tx X s (e, StoreKey n ev p sg) = s
      \<and> getTotalKeyCount (kc_tx X s (e, StoreKey n ev p sg)) = getTotalKeyCount s
      \<and> (\<forall>b. getKeyIdsByOwner (kc_tx X s (e, StoreKey n ev p sg)) b = getKeyIdsByOwner s b))
   \<and> (ECDSA_recover X (recordSignedHash X e' l c) sg' = Inr a' \<and> a' \<noteq> msg_sender e' \<longrightarrow>
      recordTemperature X e' l c ev' p' w sg' t =
        Inl (if length l = 0 then LocationEmpty
             else if length c = 0 then CargoEmpty
             else InvalidRecordSignature)
      \<and> (0 < length l \<and> 0 < length c \<longrightarrow>
            (\<exists>err. recordTemperature X e' l c ev' p' w sg' t = Inl err \<and> kind err = AuthorizationError))
      \<and> cc_tx X t (e', RecordTemperature l c ev' p' w sg') = t
      \<and> getTotalLogCount (cc_tx X t (e', RecordTemperature l c ev' p' w sg')) = getTotalLogCount t
      \<and> (\<forall>b. getLogIdsByRecorder (cc_tx X t (e', RecordTemperature l c ev' p' w sg')) b
               = getLogIdsByRecorder t b))"
proof (intro conjI impI)
  assume h: "ECDSA_recover X (storeSignedHash X e n) sg = Inr a \<and> a \<noteq> msg_sender e"
  then have r: "storeKey X e n ev p sg s =
        Inl (if length n = 0 then KeyNameEmpty
             else if 100 < length n then KeyNameTooLong
             else InvalidStoreSignature)"
    using storeKey_wrong_signer [of X e n sg a ev p s] by blast
  then show "storeKey X e n ev p sg s =
        Inl (if length n = 0 then KeyNameEmpty
             else if 100 < length n then KeyNameTooLong
             else InvalidStoreSignature)" .
  from r show tx: "kc_tx X s (e, StoreKey n ev p sg) = s"
    by (simp add: kc_tx_def)
  from tx show "getTotalKeyCount (kc_tx X s (e, StoreKey n ev p sg)) = getTotalKeyCount s"
    by simp
  from tx show "\<forall>b. getKeyIdsByOwner (kc_tx X s (e, StoreKey n ev p sg)) b = getKeyIdsByOwner s b"
    by simp
  assume "0 < length n \<and> length n \<le> 100"
  with r show "\<exists>err. storeKey X e n ev p sg s = Inl err \<and> kind err = AuthorizationError"
    by simp
next
  assume h: "ECDSA_recover X (recordSignedHash X e' l c) sg' = Inr a' \<and> a' \<noteq> msg_sender e'"
  then have r: "recordTemperature X e' l c ev' p' w sg' t =
        Inl (if length l = 0 then LocationEmpty
             else if length c = 0 then CargoEmpty
             else InvalidRecordSignature)"
    using recordTemperature_wrong_signer [of X e' l c sg' a' ev' p' w t] by blast
  then show "recordTemperature X e' l c ev' p' w sg' t =
        Inl (if length l = 0 then LocationEmpty
             else if length c = 0 then CargoEmpty
             else InvalidRecordSignature)" .
  from r show tx: "cc_tx X t (e', RecordTemperature l c ev' p' w sg') = t"
    by (simp add: cc_tx_def)
  from tx show "getTotalLogCount (cc_tx X t (e', RecordTemperature l c ev' p' w sg')) = getTotalLogCount t"
    by simp
  from tx show "\<forall>b. getLogIdsByRecorder (cc_tx X t (e', RecordTemperature l c ev' p' w sg')) b
               = getLogIdsByRecorder t b"
    by simp
  assume "0 < length l \<and> 0 < length c"
  with r show "\<exists>err. recordTemperature X e' l c ev' p' w sg' t = Inl err \<and> kind err = AuthorizationError"
    by simp
qed

theorem C2_witness:
  "ECDSA_recover demo_externals (storeSignedHash demo_externals (demo_env alice 100) ''k1'') ''ab'' = Inr bob
   \<and> bob \<noteq> msg_sender (demo_env alice 100)
   \<and> storeKey demo_externals (demo_env alice 100) ''k1'' 7 ''p'' ''ab'' kc_init = Inl InvalidStoreSignature
   \<and> kc_tx demo_externals kc_init (demo_env alice 100, StoreKey ''k1'' 7 ''p'' ''ab'') = kc_init
   \<and> getTotalKeyCount (kc_tx demo_externals kc_init (demo_env alice 100, StoreKey ''k1'' 7 ''p'' ''ab'')) = 0
   \<and> ECDSA_recover demo_externals
        (recordSignedHash demo_externals (demo_env alice 100) ''LA Port'' ''Frozen Seafood'') ''ab'' = Inr bob
   \<and> recordTemperature demo_externals (demo_env alice 100) ''LA Port'' ''Frozen Seafood'' 7 ''p'' False ''ab'' cc_init
        = Inl InvalidRecordSignature
   \<and> getTotalLogCount (cc_tx demo_externals cc_init
        (demo_env alice 100, RecordTemperature ''LA Port'' ''Frozen Seafood'' 7 ''p'' False ''ab'')) = 0"
  using C2_wrong_signer_rejected [of demo_externals "demo_env alice 100" "''k1''" "''ab''" bob
      7 "''p''" kc_init "demo_env alice 100" "''LA Port''" "''Frozen Seafood''" "''ab''" bob
      7 "''p''" False cc_init]
  by (simp add: demo_defs getTotalKeyCount_def getTotalLogCount_def kc_init_def cc_init_def)

text \<open>
  C3. After any sequence of transactions from the empty ledger and for every address
  \<open>a\<close>, \<open>getKeyIdsByOwner a\<close> (\<open>getLogIdsByRecorder a\<close>) is the list of the ids
  \<open>0, \<dots>, total - 1\<close> whose record has owner (recorder) \<open>a\<close>, in increasing order,
  which is the order of appending; every id in it is in range and refers to a record of
  \<open>a\<close>; \<open>getKeyCountByOwner a\<close> (\<open>getLogCountByRecorder a\<close>) is its length, and is 0 for
  an address that owns no record. The two views are total functions: they cannot fail.
\<close>

theorem C3_owner_index_is_owned_subsequence:
  "getKeyIdsByOwner (kc_run X kc_init ktxs) a
     = filter (\<lambda>i. owner (p_keys (kc_run X kc_init ktxs) ! i) = a)
         [0..<getTotalKeyCount (kc_run X kc_init ktxs)]
   \<and> getKeyCountByOwner (kc_run X kc_init ktxs) a
     = length (getKeyIdsByOwner (kc_run X kc_init ktxs) a)
   \<and> (\<forall>i \<in> set (getKeyIdsByOwner (kc_run X kc_init ktxs) a).
         i < getTotalKeyCount (kc_run X kc_init ktxs)
         \<and> owner (p_keys (kc_run X kc_init ktxs) ! i) = a)
   \<and> ((\<forall>i < getTotalKeyCount (kc_run X kc_init ktxs).
          owner (p_keys (kc_run X kc_init ktxs) ! i) \<noteq> a)
        \<longrightarrow> getKeyCountByOwner (kc_run X kc_init ktxs) a = 0)
   \<and> getLogIdsByRecorder (cc_run X cc_init ctxs) a
     = filter (\<lambda>i. recorder (p_logs (cc_run X cc_init ctxs) ! i) = a)
         [0..<getTotalLogCount (cc_run X cc_init ctxs)]
   \<and> getLogCountByRecorder (cc_run X cc_init ctxs) a
     = length (getLogIdsByRecorder (cc_run X cc_init ctxs) a)
   \<and> (\<forall>i \<in> set (getLogIdsByRecorder (cc_run X cc_init ctxs) a).
         i < getTotalLogCount (cc_run X cc_init ctxs)
         \<and> recorder (p_logs (cc_run X cc_init ctxs) ! i) = a)
   \<and> ((\<forall>i < getTotalLogCount (cc_run X cc_init ctxs).
          recorder (p_logs (cc_run X cc_init ctxs) ! i) \<noteq> a)
        \<longrightarrow> getLogCountByRecorder (cc_run X cc_init ctxs) a = 0)"
proof -
  let ?s = "kc_run X kc_init ktxs" and ?t = "cc_run X cc_init ctxs"
  have "kc_index_ok ?s"
    by (rule kc_index_ok_run) (rule kc_index_ok_init)
  then have k: "getKeyIdsByOwner ?s a
      = filter (\<lambda>i. owner (p_keys ?s ! i) = a) [0..<getTotalKeyCount ?s]"
    by (simp add: kc_index_ok_def getKeyIdsByOwner_def getTotalKeyCount_def)
  have kc: "getKeyCountByOwner ?s a = length (getKeyIdsByOwner ?s a)"
    by (simp add: getKeyCountByOwner_def getKeyIdsByOwner_def)
  have km: "\<forall>i \<in> set (getKeyIdsByOwner ?s a). i < getTotalKeyCount ?s \<and> owner (p_keys ?s ! i) = a"
    by (simp add: k)
  have k0: "getKeyCountByOwner ?s a = 0"
    if "\<forall>i < getTotalKeyCount ?s. owner (p_keys ?s ! i) \<noteq> a"
  proof -
    have "filter (\<lambda>i. owner (p_keys ?s ! i) = a) [0..<getTotalKeyCount ?s] = []"
      using that by (simp add: filter_empty_conv)
    then show ?thesis by (simp add: kc k)
  qed
  have "cc_index_ok ?t"
    by (rule cc_index_ok_run) (rule cc_index_ok_init)
  then have l: "getLogIdsByRecorder ?t a
      = filter (\<lambda>i. recorder (p_logs ?t ! i) = a) [0..<getTotalLogCount ?t]"
    by (simp add: cc_index_ok_def getLogIdsByRecorder_def getTotalLogCount_def)
  have lc: "getLogCountByRecorder ?t a = length (getLogIdsByRecorder ?t a)"
    by (simp add: getLogCountByRecorder_def getLogIdsByRecorder_def)
  have lm: "\<forall>i \<in> set (getLogIdsByRecorder ?t a). i < getTotalLogCount ?t \<and> recorder (p_logs ?t ! i) = a"
    by (simp add: l)
  have l0: "getLogCountByRecorder ?t a = 0"
    if "\<forall>i < getTotalLogCount ?t. recorder (p_logs ?t ! i) \<noteq> a"
  proof -
    have "filter (\<lambda>i. recorder (p_logs ?t ! i) = a) [0..<getTotalLogCount ?t] = []"
      using that by (simp add: filter_empty_conv)
    then show ?thesis by (simp add: lc l)
  qed
  from k kc km k0 l lc lm l0 show ?thesis by blast
qed

theorem C3_witness:
  "getKeyIdsByOwner (kc_run demo_externals kc_init
      [(demo_env alice 100, StoreKey ''k1'' 7 ''p'' ''a''),
       (demo_env bob 101, StoreKey ''k2'' 8 ''p'' ''ab''),
       (demo_env alice 102, StoreKey ''k3'' 9 ''p'' ''a'')]) alice = [0, 2]
   \<and> 2 \<in> set (getKeyIdsByOwner (kc_run demo_externals kc_init
      [(demo_env alice 100, StoreKey ''k1'' 7 ''p'' ''a''),
       (demo_env bob 101, StoreKey ''k2'' 8 ''p'' ''ab''),
       (demo_env alice 102, StoreKey ''k3'' 9 ''p'' ''a'')]) alice)
   \<and> owner (p_keys (kc_run demo_externals kc_init
      [(demo_env alice 100, StoreKey ''k1'' 7 ''p'' ''a''),
       (demo_env bob 101, StoreKey ''k2'' 8 ''p'' ''ab''),
       (demo_env alice 102, StoreKey ''k3'' 9 ''p'' ''a'')]) ! 2) = alice
   \<and> getKeyCountByOwner (kc_run demo_externals kc_init
      [(demo_env alice 100, StoreKey ''k1'' 7 ''p'' ''a''),
       (demo_env bob 101, StoreKey ''k2'' 8 ''p'' ''ab''),
       (demo_env alice 102, StoreKey ''k3'' 9 ''p'' ''a'')]) alice = 2
   \<and> getLogIdsByRecorder (cc_run demo_externals cc_init
      [(demo_env alice 100, RecordTemperature ''Shanghai Port'' ''Frozen Seafood'' 7 ''p'' False ''a''),
       (demo_env bob 101, RecordTemperature ''Singapore Hub'' ''Frozen Seafood'' 8 ''p'' True ''ab'')]) bob = [1]
   \<and> getLogCountByRecorder (cc_run demo_externals cc_init
      [(demo_env alice 100, RecordTemperature ''Shanghai Port'' ''Frozen Seafood'' 7 ''p'' False ''a''),
       (demo_env bob 101, RecordTemperature ''Singapore Hub'' ''Frozen Seafood'' 8 ''p'' True ''ab'')]) 3 = 0"
  using C3_owner_index_is_owned_subsequence [of demo_externals
      "[(demo_env alice 100, StoreKey ''k1'' 7 ''p'' ''a''),
        (demo_env bob 101, StoreKey ''k2'' 8 ''p'' ''ab''),
        (demo_env alice 102, StoreKey ''k3'' 9 ''p'' ''a'')]" alice
      "[(demo_env alice 100, RecordTemperature ''Shanghai Port'' ''Frozen Seafood'' 7 ''p'' False ''a''),
        (demo_env bob 101, RecordTemperature ''Singapore Hub'' ''Frozen Seafood'' 8 ''p'' True ''ab'')]"]
    C3_owner_index_is_owned_subsequence [of demo_externals "[]" bob
      "[(demo_env alice 100, RecordTemperature ''Shanghai Port'' ''Frozen Seafood'' 7 ''p'' False ''a''),
        (demo_env bob 101, RecordTemperature ''Singapore Hub'' ''Frozen Seafood'' 8 ''p'' True ''ab'')]"]
    C3_owner_index_is_owned_subsequence [of demo_externals "[]" 3
      "[(demo_env alice 100, RecordTemperature ''Shanghai Port'' ''Frozen Seafood'' 7 ''p'' False ''a''),
        (demo_env bob 101, RecordTemperature ''Singapore Hub'' ''Frozen Seafood'' 8 ''p'' True ''ab'')]"]
  by (simp add: demo_kc_defs demo_cc_defs getKeyIdsByOwner_def getLogIdsByRecorder_def
        getKeyCountByOwner_def getLogCountByRecorder_def)

text \<open>
  C4. In every state and for every id, \<open>getKeyMeta\<close> and \<open>getEncryptedValue\<close>
  (\<open>getLogMeta\<close> and \<open>getEncryptedTemperature\<close>) fail, with "Key does not exist" ("Log
  does not exist", both NotFound), if and only if the id is at least the total count,
  and otherwise return the fields of the record at that index. They are \<open>view\<close>
  functions: functions of the state that return a value and no new state.
\<close>

theorem C4_reads_fail_exactly_out_of_range:
  "(getKeyMeta s i = Inl KeyDoesNotExist \<longleftrightarrow> getTotalKeyCount s \<le> i)
   \<and> (isl (getKeyMeta s i) \<longleftrightarrow> getTotalKeyCount s \<le> i)
   \<and> (getEncryptedValue s i = Inl KeyDoesNotExist \<longleftrightarrow> getTotalKeyCount s \<le> i)
   \<and> (isl (getEncryptedValue s i) \<longleftrightarrow> getTotalKeyCount s \<le> i)
   \<and> (i < getTotalKeyCount s \<longrightarrow>
        getKeyMeta s i = Inr (owner (p_keys s ! i), keyName (p_keys s ! i),
                              createdAt (p_keys s ! i), updatedAt (p_keys s ! i))
        \<and> getEncryptedValue s i = Inr (encryptedValue (p_keys s ! i)))
   \<and> kind KeyDoesNotExist = NotFound
   \<and> (getLogMeta t i = Inl LogDoesNotExist \<longleftrightarrow> getTotalLogCount t \<le> i)
   \<and> (isl (getLogMeta t i) \<longleftrightarrow> getTotalLogCount t \<le> i)
   \<and> (getEncryptedTemperature t i = Inl LogDoesNotExist \<longleftrightarrow> getTotalLogCount t \<le> i)
   \<and> (isl (getEncryptedTemperature t i) \<longleftrightarrow> getTotalLogCount t \<le> i)
   \<and> (i < getTotalLogCount t \<longrightarrow>
        getLogMeta t i = Inr (recorder (p_logs t ! i), location (p_logs t ! i), cargo (p_logs t ! i),
                              timestamp (p_logs t ! i), isWarning (p_logs t ! i))
        \<and> getEncryptedTemperature t i = Inr (encryptedTemperature (p_logs t ! i)))
   \<and> kind LogDoesNotExist = NotFound"
  by (simp add: getKeyMeta_def getEncryptedValue_def getTotalKeyCount_def
        getLogMeta_def getEncryptedTemperature_def getTotalLogCount_def Let_def not_less)

theorem C4_witness:
  "getTotalKeyCount (kc_tx demo_externals kc_init (demo_env alice 100, StoreKey ''k1'' 7 ''p'' ''a'')) = 1
   \<and> getKeyMeta (kc_tx demo_externals kc_init (demo_env alice 100, StoreKey ''k1'' 7 ''p'' ''a'')) 0
        = Inr (alice, ''k1'', 100, 100)
   \<and> getEncryptedValue (kc_tx demo_externals kc_init (demo_env alice 100, StoreKey ''k1'' 7 ''p'' ''a'')) 0
        = Inr 7
   \<and> getTotalLogCount (cc_tx demo_externals cc_init
        (demo_env alice 100, RecordTemperature ''LA Port'' ''Frozen Seafood'' 7 ''p'' False ''a'')) = 1
   \<and> getLogMeta (cc_tx demo_externals cc_init
        (demo_env alice 100, RecordTemperature ''LA Port'' ''Frozen Seafood'' 7 ''p'' False ''a'')) 0
        = Inr (alice, ''LA Port'', ''Frozen Seafood'', 100, False)
   \<and> getEncryptedTemperature (cc_tx demo_externals cc_init
        (demo_env alice 100, RecordTemperature ''LA Port'' ''Frozen Seafood'' 7 ''p'' False ''a'')) 0
        = Inr 7"
  using C4_reads_fail_exactly_out_of_range
      [of "kc_tx demo_externals kc_init (demo_env alice 100, StoreKey ''k1'' 7 ''p'' ''a'')" 0
          "cc_tx demo_externals cc_init
            (demo_env alice 100, RecordTemperature ''LA Port'' ''Frozen Seafood'' 7 ''p'' False ''a'')"]
  by (simp add: demo_kc_defs demo_cc_defs getTotalKeyCount_def getTotalLogCount_def)

lemma kc_tx_keeps_fields:
  assumes i: "i < length (p_keys s)"
  shows "i < length (p_keys (kc_tx X s tx))
         \<and> owner (p_keys (kc_tx X s tx) ! i) = owner (p_keys s ! i)
         \<and> keyName (p_keys (kc_tx X s tx) ! i) = keyName (p_keys s ! i)
         \<and> createdAt (p_keys (kc_tx X s tx) ! i) = createdAt (p_keys s ! i)"
proof (cases tx)
  case (Pair e c)
  show ?thesis
  proof (cases c)
    case (StoreKey n ev p sg)
    show ?thesis
    proof (cases "storeKey X e n ev p sg s")
      case (Inl err)
      with Pair StoreKey i show ?thesis by (simp add: kc_tx_def)
    next
      case (Inr s')
      from storeKey_success [OF Inr] obtain x where "p_keys s' = p_keys s @ [x]"
        by auto
      with Pair StoreKey Inr i show ?thesis by (simp add: kc_tx_def nth_append)
    qed
  next
    case (UpdateKey j ev p sg)
    show ?thesis
    proof (cases "updateKey X e j ev p sg s")
      case (Inl err)
      with Pair UpdateKey i show ?thesis by (simp add: kc_tx_def)
    next
      case (Inr s')
      from updateKey_success [OF Inr] obtain h where
        "p_keys s' = (p_keys s)[j := (p_keys s ! j)\<lparr>encryptedValue := h,
                          updatedAt := ucast (block_timestamp e)\<rparr>]"
        by auto
      with Pair UpdateKey Inr i show ?thesis by (simp add: kc_tx_def nth_update_fields)
    qed
  qed
qed

lemma kc_run_keeps_fields:
  "i < length (p_keys s) \<Longrightarrow>
     i < length (p_keys (kc_run X s txs))
     \<and> owner (p_keys (kc_run X s txs) ! i) = owner (p_keys s ! i)
     \<and> keyName (p_keys (kc_run X s txs) ! i) = keyName (p_keys s ! i)
     \<and> createdAt (p_keys (kc_run X s txs) ! i) = createdAt (p_keys s ! i)"
proof (induction txs arbitrary: s)
  case Nil
  then show ?case by simp
next
  case (Cons tx txs)
  from kc_tx_keeps_fields [OF Cons.prems, of X tx]
  have a: "i < length (p_keys (kc_tx X s tx))"
    and b: "owner (p_keys (kc_tx X s tx) ! i) = owner (p_keys s ! i)"
      "keyName (p_keys (kc_tx X s tx) ! i) = keyName (p_keys s ! i)"
      "createdAt (p_keys (kc_tx X s tx) ! i) = createdAt (p_keys s ! i)"
    by simp_all
  from Cons.IH [OF a] b show ?case by simp
qed

lemma updateKey_updatedAt:
  assumes u: "updateKey X e i ev p sg s = Inr s'"
  shows "updatedAt (p_keys s' ! i) = ucast (block_timestamp e)"
    and "updatedAt (p_keys s ! i) < updatedAt (p_keys s' ! i)"
    and "owner (p_keys s' ! i) = msg_sender e"
    and "i < length (p_keys s')"
proof -
  from updateKey_success [OF u] obtain h where
    i: "i < length (p_keys s)" and
    o: "owner (p_keys s ! i) = msg_sender e" and
    lt: "updatedAt (p_keys s ! i) < ucast (block_timestamp e)" and
    s': "p_keys s' = (p_keys s)[i := (p_keys s ! i)\<lparr>encryptedValue := h,
                          updatedAt := ucast (block_timestamp e)\<rparr>]"
    by auto
  show a: "updatedAt (p_keys s' ! i) = ucast (block_timestamp e)"
    using i by (simp add: s')
  show "updatedAt (p_keys s ! i) < updatedAt (p_keys s' ! i)"
    using lt by (simp add: a)
  show "owner (p_keys s' ! i) = msg_sender e"
    using i o by (simp add: s')
  show "i < length (p_keys s')"
    using i by (simp add: s')
qed

lemma updatedAt_mono_tx:
  assumes i: "i < length (p_keys s)"
  shows "i < length (p_keys (kc_tx X s tx))
         \<and> updatedAt (p_keys s ! i) \<le> updatedAt (p_keys (kc_tx X s tx) ! i)"
proof (cases tx)
  case (Pair e c)
  show ?thesis
  proof (cases c)
    case (StoreKey n ev p sg)
    show ?thesis
    proof (cases "storeKey X e n ev p sg s")
      case (Inl err)
      with Pair StoreKey i show ?thesis by (simp add: kc_tx_def)
    next
      case (Inr s')
      from storeKey_success [OF Inr] obtain x where "p_keys s' = p_keys s @ [x]"
        by auto
      with Pair StoreKey Inr i show ?thesis by (simp add: kc_tx_def nth_append)
    qed
  next
    case (UpdateKey j ev p sg)
    show ?thesis
    proof (cases "updateKey X e j ev p sg s")
      case (Inl err)
      with Pair UpdateKey i show ?thesis by (simp add: kc_tx_def)
    next
      case (Inr s')
      from updateKey_success [OF Inr] obtain h where
        j: "j < length (p_keys s)" and
        s': "p_keys s' = (p_keys s)[j := (p_keys s ! j)\<lparr>encryptedValue := h,
                          updatedAt := ucast (block_timestamp e)\<rparr>]"
        by auto
      have tx: "kc_tx X s tx = s'"
        using Pair UpdateKey Inr by (simp add: kc_tx_def)
      show ?thesis
      proof (cases "j = i")
        case True
        with updateKey_updatedAt(2) [OF Inr] i show ?thesis
          by (simp add: tx s' less_imp_le)
      next
        case False
        with i show ?thesis by (simp add: tx s')
      qed
    qed
  qed
qed

lemma updatedAt_mono_run:
  "i < length (p_keys s) \<Longrightarrow>
     i < length (p_keys (kc_run X s txs))
     \<and> updatedAt (p_keys s ! i) \<le> updatedAt (p_keys (kc_run X s txs) ! i)"
proof (induction txs arbitrary: s)
  case Nil
  then show ?case by simp
next
  case (Cons tx txs)
  from updatedAt_mono_tx [OF Cons.prems, of X tx]
  have a: "i < length (p_keys (kc_tx X s tx))"
    and b: "updatedAt (p_keys s ! i) \<le> updatedAt (p_keys (kc_tx X s tx) ! i)"
    by simp_all
  from Cons.IH [OF a] b show ?case by auto
qed

lemma updateKey_stale:
  assumes "i < length (p_keys s)"
    and "ucast (block_timestamp e) \<le> updatedAt (p_keys s ! i)"
  shows "updateKey X e i ev p sg s =
           Inl (if msg_sender e = owner (p_keys s ! i) then CannotUpdateSameTimestamp
                else NotTheOwner)"
  using assms by (simp add: updateKey_def not_less)

lemma updateKey_later_same_timestamp:
  assumes u: "updateKey X e1 i ev1 p1 sg1 s = Inr sa"
    and ts: "block_timestamp e2 = block_timestamp e1"
  shows "updateKey X e2 i ev2 p2 sg2 (kc_run X sa txs) =
           Inl (if msg_sender e2 = owner (p_keys sa ! i) then CannotUpdateSameTimestamp
                else NotTheOwner)"
proof -
  have len: "i < length (p_keys sa)"
    by (rule updateKey_updatedAt(4) [OF u])
  have upd: "updatedAt (p_keys sa ! i) = ucast (block_timestamp e2)"
    using updateKey_updatedAt(1) [OF u] by (simp add: ts)
  from updatedAt_mono_run [OF len, of X txs]
  have len': "i < length (p_keys (kc_run X sa txs))"
    and mono: "updatedAt (p_keys sa ! i) \<le> updatedAt (p_keys (kc_run X sa txs) ! i)"
    by simp_all
  from kc_run_keeps_fields [OF len, of X txs]
  have own: "owner (p_keys (kc_run X sa txs) ! i) = owner (p_keys sa ! i)"
    by simp
  have stale: "ucast (block_timestamp e2) \<le> updatedAt (p_keys (kc_run X sa txs) ! i)"
    using mono by (simp add: upd)
  show ?thesis
    using updateKey_stale [OF len' stale, of X ev2 p2 sg2] by (simp add: own)
qed

lemma record_frozen_tx:
  assumes i: "i < length (p_keys s)"
    and st: "ucast (block_timestamp (fst tx)) \<le> updatedAt (p_keys s ! i)"
  shows "i < length (p_keys (kc_tx X s tx)) \<and> p_keys (kc_tx X s tx) ! i = p_keys s ! i"
proof (cases tx)
  case (Pair e c)
  show ?thesis
  proof (cases c)
    case (StoreKey n ev p sg)
    show ?thesis
    proof (cases "storeKey X e n ev p sg s")
      case (Inl err)
      with Pair StoreKey i show ?thesis by (simp add: kc_tx_def)
    next
      case (Inr s')
      from storeKey_success [OF Inr] obtain x where "p_keys s' = p_keys s @ [x]"
        by auto
      with Pair StoreKey Inr i show ?thesis by (simp add: kc_tx_def nth_append)
    qed
  next
    case (UpdateKey j ev p sg)
    show ?thesis
    proof (cases "updateKey X e j ev p sg s")
      case (Inl err)
      with Pair UpdateKey i show ?thesis by (simp add: kc_tx_def)
    next
      case (Inr s')
      from updateKey_success [OF Inr] obtain h where
        s': "p_keys s' = (p_keys s)[j := (p_keys s ! j)\<lparr>encryptedValue := h,
                          updatedAt := ucast (block_timestamp e)\<rparr>]"
        by auto
      have tx: "kc_tx X s tx = s'"
        using Pair UpdateKey Inr by (simp add: kc_tx_def)
      have "j \<noteq> i"
      proof
        assume "j = i"
        with st Pair have "ucast (block_timestamp e) \<le> updatedAt (p_keys s ! j)"
          by simp
        from updateKey_stale [OF _ this, of X ev p sg] i \<open>j = i\<close> Inr show False
          by simp
      qed
      with i show ?thesis by (simp add: tx s')
    qed
  qed
qed

lemma record_frozen_run:
  "i < length (p_keys s) \<Longrightarrow>
   \<forall>tx \<in> set txs. ucast (block_timestamp (fst tx)) \<le> updatedAt (p_keys s ! i) \<Longrightarrow>
     i < length (p_keys (kc_run X s txs)) \<and> p_keys (kc_run X s txs) ! i = p_keys s ! i"
proof (induction txs arbitrary: s)
  case Nil
  then show ?case by simp
next
  case (Cons tx txs)
  have st: "ucast (block_timestamp (fst tx)) \<le> updatedAt (p_keys s ! i)"
    using Cons.prems(2) by simp
  from record_frozen_tx [OF Cons.prems(1) st, of X]
  have a: "i < length (p_keys (kc_tx X s tx))"
    and b: "p_keys (kc_tx X s tx) ! i = p_keys s ! i"
    by simp_all
  have c: "\<forall>tx' \<in> set txs. ucast (block_timestamp (fst tx')) \<le> updatedAt (p_keys (kc_tx X s tx) ! i)"
    using Cons.prems(2) by (simp add: b)
  from Cons.IH [OF a c] b show ?case by simp
qed

text \<open>
  The owner check of \<open>updateKey\<close> comes before its timestamp check: after a successful
  update, a second call in the same block by an account that is not the owner reverts
  with "Not the owner", not with "Cannot update same timestamp".
\<close>

theorem C5_counterexample:
  "\<not> isl (updateKey demo_externals (demo_env alice 200) 0 8 ''p'' ''a''
            (kc_tx demo_externals kc_init (demo_env alice 100, StoreKey ''k1'' 7 ''p'' ''a'')))
   \<and> block_timestamp (demo_env bob 200) = block_timestamp (demo_env alice 200)
   \<and> updateKey demo_externals (demo_env bob 200) 0 9 ''p'' ''ab''
        (kc_tx demo_externals
           (kc_tx demo_externals kc_init (demo_env alice 100, StoreKey ''k1'' 7 ''p'' ''a''))
           (demo_env alice 200, UpdateKey 0 8 ''p'' ''a''))
      = Inl NotTheOwner
   \<and> kind NotTheOwner \<noteq> StaleTimestamp"
  by (simp add: demo_kc_defs)

text \<open>
  C5 (as amended). When an \<open>updateKey\<close> call on a record succeeds, it sets \<open>updatedAt\<close>
  to the current timestamp (\<open>uint64(block.timestamp)\<close>), strictly above the old value.
  Any later \<open>updateKey\<close> call on that record at the same timestamp, directly after the
  first or after any transactions in between, fails and changes nothing: with
  StaleTimestamp when its caller is the record's owner, and with NotOwner otherwise.
  When the transactions in between run at that timestamp too (the same block), the
  record is still exactly as the first update left it, in \<open>encryptedValue\<close>, \<open>updatedAt\<close>
  and every other field. Consequently \<open>updatedAt\<close> is strictly increasing across the
  successful updates of a record, whatever transactions run between them.
\<close>

theorem C5_same_timestamp_second_update_fails:
  "(updateKey X e1 i ev1 p1 sg1 s = Inr sa \<and> block_timestamp e2 = block_timestamp e1 \<longrightarrow>
       updatedAt (p_keys sa ! i) = ucast (block_timestamp e1)
     \<and> updatedAt (p_keys s ! i) < updatedAt (p_keys sa ! i)
     \<and> updateKey X e2 i ev2 p2 sg2 (kc_run X sa txs) =
         Inl (if msg_sender e2 = owner (p_keys sa ! i) then CannotUpdateSameTimestamp
              else NotTheOwner)
     \<and> (msg_sender e2 = owner (p_keys sa ! i) \<longrightarrow>
          (\<exists>err. updateKey X e2 i ev2 p2 sg2 (kc_run X sa txs) = Inl err
                 \<and> kind err = StaleTimestamp))
     \<and> (msg_sender e2 \<noteq> owner (p_keys sa ! i) \<longrightarrow>
          (\<exists>err. updateKey X e2 i ev2 p2 sg2 (kc_run X sa txs) = Inl err
                 \<and> kind err = NotOwner))
     \<and> kc_tx X (kc_run X sa txs) (e2, UpdateKey i ev2 p2 sg2) = kc_run X sa txs
     \<and> ((\<forall>tx \<in> set txs. block_timestamp (fst tx) = block_timestamp e1) \<longrightarrow>
          p_keys (kc_tx X (kc_run X sa txs) (e2, UpdateKey i ev2 p2 sg2)) ! i = p_keys sa ! i
        \<and> encryptedValue (p_keys (kc_tx X (kc_run X sa txs) (e2, UpdateKey i ev2 p2 sg2)) ! i)
             = encryptedValue (p_keys sa ! i)
        \<and> updatedAt (p_keys (kc_tx X (kc_run X sa txs) (e2, UpdateKey i ev2 p2 sg2)) ! i)
             = updatedAt (p_keys sa ! i)))
   \<and> (updateKey X e1 i ev1 p1 sg1 s = Inr sa
        \<and> updateKey X e3 i ev3 p3 sg3 (kc_run X sa txs) = Inr sc \<longrightarrow>
       updatedAt (p_keys s ! i) < updatedAt (p_keys sa ! i)
     \<and> updatedAt (p_keys sa ! i) < updatedAt (p_keys sc ! i))"
proof (intro conjI impI)
  assume h: "updateKey X e1 i ev1 p1 sg1 s = Inr sa \<and> block_timestamp e2 = block_timestamp e1"
  from h have u: "updateKey X e1 i ev1 p1 sg1 s = Inr sa"
    by blast
  from h have ts: "block_timestamp e2 = block_timestamp e1"
    by blast
  show upd: "updatedAt (p_keys sa ! i) = ucast (block_timestamp e1)"
    by (rule updateKey_updatedAt(1) [OF u])
  show "updatedAt (p_keys s ! i) < updatedAt (p_keys sa ! i)"
    by (rule updateKey_updatedAt(2) [OF u])
  show r: "updateKey X e2 i ev2 p2 sg2 (kc_run X sa txs) =
         Inl (if msg_sender e2 = owner (p_keys sa ! i) then CannotUpdateSameTimestamp
              else NotTheOwner)"
    by (rule updateKey_later_same_timestamp [OF u ts])
  from r show tx: "kc_tx X (kc_run X sa txs) (e2, UpdateKey i ev2 p2 sg2) = kc_run X sa txs"
    by (simp add: kc_tx_def)
  {
    assume "msg_sender e2 = owner (p_keys sa ! i)"
    with r show "\<exists>err. updateKey X e2 i ev2 p2 sg2 (kc_run X sa txs) = Inl err
                 \<and> kind err = StaleTimestamp"
      by simp
  }
  {
    assume "msg_sender e2 \<noteq> owner (p_keys sa ! i)"
    with r show "\<exists>err. updateKey X e2 i ev2 p2 sg2 (kc_run X sa txs) = Inl err
                 \<and> kind err = NotOwner"
      by simp
  }
  {
    assume same: "\<forall>tx \<in> set txs. block_timestamp (fst tx) = block_timestamp e1"
    have len: "i < length (p_keys sa)"
      by (rule updateKey_updatedAt(4) [OF u])
    have "\<forall>tx \<in> set txs. ucast (block_timestamp (fst tx)) \<le> updatedAt (p_keys sa ! i)"
      using same by (simp add: upd)
    from record_frozen_run [OF len this, of X]
    have fr: "p_keys (kc_run X sa txs) ! i = p_keys sa ! i"
      by simp
    show a: "p_keys (kc_tx X (kc_run X sa txs) (e2, UpdateKey i ev2 p2 sg2)) ! i = p_keys sa ! i"
      by (simp add: tx fr)
    show "encryptedValue (p_keys (kc_tx X (kc_run X sa txs) (e2, UpdateKey i ev2 p2 sg2)) ! i)
             = encryptedValue (p_keys sa ! i)"
      by (simp add: a)
    show "updatedAt (p_keys (kc_tx X (kc_run X sa txs) (e2, UpdateKey i ev2 p2 sg2)) ! i)
             = updatedAt (p_keys sa ! i)"
      by (simp add: a)
  }
next
  assume h: "updateKey X e1 i ev1 p1 sg1 s = Inr sa
        \<and> updateKey X e3 i ev3 p3 sg3 (kc_run X sa txs) = Inr sc"
  from h have u1: "updateKey X e1 i ev1 p1 sg1 s = Inr sa"
    by blast
  from h have u3: "updateKey X e3 i ev3 p3 sg3 (kc_run X sa txs) = Inr sc"
    by blast
  show "updatedAt (p_keys s ! i) < updatedAt (p_keys sa ! i)"
    by (rule updateKey_updatedAt(2) [OF u1])
  have "updatedAt (p_keys sa ! i) \<le> updatedAt (p_keys (kc_run X sa txs) ! i)"
    using updatedAt_mono_run [OF updateKey_updatedAt(4) [OF u1], of X txs] by simp
  also have "\<dots> < updatedAt (p_keys sc ! i)"
    by (rule updateKey_updatedAt(2) [OF u3])
  finally show "updatedAt (p_keys sa ! i) < updatedAt (p_keys sc ! i)" .
qed

theorem C5_witness:
  "updateKey demo_externals (demo_env alice 200) 0 8 ''p'' ''a'' (kc_tx demo_externals kc_init (demo_env alice 100, StoreKey ''k1'' 7 ''p'' ''a'')) = Inr (kc_tx demo_externals (kc_tx demo_externals kc_init (demo_env alice 100, StoreKey ''k1'' 7 ''p'' ''a'')) (demo_env alice 200, UpdateKey 0 8 ''p'' ''a''))
   \<and> block_timestamp (demo_env alice 200) = block_timestamp (demo_env alice 200)
   \<and> block_timestamp (demo_env bob 200) = block_timestamp (demo_env alice 200)
   \<and> block_timestamp (fst (demo_env bob 200, StoreKey ''k2'' 9 ''p'' ''ab''))
        = block_timestamp (demo_env alice 200)
   \<and> getTotalKeyCount (kc_run demo_externals (kc_tx demo_externals (kc_tx demo_externals kc_init (demo_env alice 100, StoreKey ''k1'' 7 ''p'' ''a'')) (demo_env alice 200, UpdateKey 0 8 ''p'' ''a'')) [(demo_env bob 200, StoreKey ''k2'' 9 ''p'' ''ab'')]) = 2
   \<and> updatedAt (p_keys (kc_tx demo_externals (kc_tx demo_externals kc_init (demo_env alice 100, StoreKey ''k1'' 7 ''p'' ''a'')) (demo_env alice 200, UpdateKey 0 8 ''p'' ''a'')) ! 0) = 200
   \<and> updateKey demo_externals (demo_env alice 200) 0 9 ''p'' ''a'' (kc_run demo_externals (kc_tx demo_externals (kc_tx demo_externals kc_init (demo_env alice 100, StoreKey ''k1'' 7 ''p'' ''a'')) (demo_env alice 200, UpdateKey 0 8 ''p'' ''a'')) [(demo_env bob 200, StoreKey ''k2'' 9 ''p'' ''ab'')])
        = Inl CannotUpdateSameTimestamp
   \<and> updateKey demo_externals (demo_env bob 200) 0 9 ''p'' ''ab'' (kc_run demo_externals (kc_tx demo_externals (kc_tx demo_externals kc_init (demo_env alice 100, StoreKey ''k1'' 7 ''p'' ''a'')) (demo_env alice 200, UpdateKey 0 8 ''p'' ''a'')) [(demo_env bob 200, StoreKey ''k2'' 9 ''p'' ''ab'')])
        = Inl NotTheOwner
   \<and> getKeyMeta (kc_tx demo_externals (kc_run demo_externals (kc_tx demo_externals (kc_tx demo_externals kc_init (demo_env alice 100, StoreKey ''k1'' 7 ''p'' ''a'')) (demo_env alice 200, UpdateKey 0 8 ''p'' ''a'')) [(demo_env bob 200, StoreKey ''k2'' 9 ''p'' ''ab'')]) (demo_env alice 200, UpdateKey 0 9 ''p'' ''a'')) 0
        = Inr (alice, ''k1'', 100, 200)
   \<and> getEncryptedValue (kc_tx demo_externals (kc_run demo_externals (kc_tx demo_externals (kc_tx demo_externals kc_init (demo_env alice 100, StoreKey ''k1'' 7 ''p'' ''a'')) (demo_env alice 200, UpdateKey 0 8 ''p'' ''a'')) [(demo_env bob 200, StoreKey ''k2'' 9 ''p'' ''ab'')]) (demo_env alice 200, UpdateKey 0 9 ''p'' ''a'')) 0
        = Inr 8
   \<and> updateKey demo_externals (demo_env alice 300) 0 9 ''p'' ''a'' (kc_run demo_externals (kc_tx demo_externals (kc_tx demo_externals kc_init (demo_env alice 100, StoreKey ''k1'' 7 ''p'' ''a'')) (demo_env alice 200, UpdateKey 0 8 ''p'' ''a'')) [(demo_env bob 200, StoreKey ''k2'' 9 ''p'' ''ab'')]) = Inr (kc_tx demo_externals (kc_run demo_externals (kc_tx demo_externals (kc_tx demo_externals kc_init (demo_env alice 100, StoreKey ''k1'' 7 ''p'' ''a'')) (demo_env alice 200, UpdateKey 0 8 ''p'' ''a'')) [(demo_env bob 200, StoreKey ''k2'' 9 ''p'' ''ab'')]) (demo_env alice 300, UpdateKey 0 9 ''p'' ''a''))
   \<and> updatedAt (p_keys (kc_tx demo_externals (kc_run demo_externals (kc_tx demo_externals (kc_tx demo_externals kc_init (demo_env alice 100, StoreKey ''k1'' 7 ''p'' ''a'')) (demo_env alice 200, UpdateKey 0 8 ''p'' ''a'')) [(demo_env bob 200, StoreKey ''k2'' 9 ''p'' ''ab'')]) (demo_env alice 300, UpdateKey 0 9 ''p'' ''a'')) ! 0) = 300"
  using C5_same_timestamp_second_update_fails [where X = demo_externals
      and ?e1.0 = "demo_env alice 200" and i = 0 and ?ev1.0 = 8 and ?p1.0 = "''p''"
      and ?sg1.0 = "''a''" and s = "kc_tx demo_externals kc_init (demo_env alice 100, StoreKey ''k1'' 7 ''p'' ''a'')" and sa = "kc_tx demo_externals (kc_tx demo_externals kc_init (demo_env alice 100, StoreKey ''k1'' 7 ''p'' ''a'')) (demo_env alice 200, UpdateKey 0 8 ''p'' ''a'')" and txs = "[(demo_env bob 200, StoreKey ''k2'' 9 ''p'' ''ab'')]"
      and ?e2.0 = "demo_env alice 200" and ?ev2.0 = 9 and ?p2.0 = "''p''" and ?sg2.0 = "''a''"
      and ?e3.0 = "demo_env alice 300" and ?ev3.0 = 9 and ?p3.0 = "''p''" and ?sg3.0 = "''a''"
      and sc = "kc_tx demo_externals (kc_run demo_externals (kc_tx demo_externals (kc_tx demo_externals kc_init (demo_env alice 100, StoreKey ''k1'' 7 ''p'' ''a'')) (demo_env alice 200, UpdateKey 0 8 ''p'' ''a'')) [(demo_env bob 200, StoreKey ''k2'' 9 ''p'' ''ab'')]) (demo_env alice 300, UpdateKey 0 9 ''p'' ''a'')"]
    C5_same_timestamp_second_update_fails [where X = demo_externals
      and ?e1.0 = "demo_env alice 200" and i = 0 and ?ev1.0 = 8 and ?p1.0 = "''p''"
      and ?sg1.0 = "''a''" and s = "kc_tx demo_externals kc_init (demo_env alice 100, StoreKey ''k1'' 7 ''p'' ''a'')" and sa = "kc_tx demo_externals (kc_tx demo_externals kc_init (demo_env alice 100, StoreKey ''k1'' 7 ''p'' ''a'')) (demo_env alice 200, UpdateKey 0 8 ''p'' ''a'')" and txs = "[(demo_env bob 200, StoreKey ''k2'' 9 ''p'' ''ab'')]"
      and ?e2.0 = "demo_env bob 200" and ?ev2.0 = 9 and ?p2.0 = "''p''" and ?sg2.0 = "''ab''"]
  by (simp add: demo_kc_defs getKeyMeta_def getEncryptedValue_def getTotalKeyCount_def)

text \<open>
  C6. For an existing record, an \<open>updateKey\<close> call whose caller is not the stored owner
  fails with "Not the owner" (NotOwner), and the state after the transaction is the
  state before it: the record keeps every field.
\<close>

theorem C6_non_owner_update_rejected:
  "i < length (p_keys s) \<and> owner (p_keys s ! i) \<noteq> msg_sender e \<longrightarrow>
     updateKey X e i ev p sg s = Inl NotTheOwner
     \<and> kind NotTheOwner = NotOwner
     \<and> kc_tx X s (e, UpdateKey i ev p sg) = s
     \<and> p_keys (kc_tx X s (e, UpdateKey i ev p sg)) ! i = p_keys s ! i"
  by (simp add: updateKey_def kc_tx_def)

theorem C6_witness:
  "0 < length (p_keys (kc_tx demo_externals kc_init (demo_env alice 100, StoreKey ''k1'' 7 ''p'' ''a'')))
   \<and> owner (p_keys (kc_tx demo_externals kc_init (demo_env alice 100, StoreKey ''k1'' 7 ''p'' ''a'')) ! 0)
        \<noteq> msg_sender (demo_env bob 200)
   \<and> updateKey demo_externals (demo_env bob 200) 0 9 ''p'' ''ab''
        (kc_tx demo_externals kc_init (demo_env alice 100, StoreKey ''k1'' 7 ''p'' ''a''))
      = Inl NotTheOwner
   \<and> getEncryptedValue (kc_tx demo_externals
        (kc_tx demo_externals kc_init (demo_env alice 100, StoreKey ''k1'' 7 ''p'' ''a''))
        (demo_env bob 200, UpdateKey 0 9 ''p'' ''ab'')) 0 = Inr 7"
  using C6_non_owner_update_rejected [of 0
      "kc_tx demo_externals kc_init (demo_env alice 100, StoreKey ''k1'' 7 ''p'' ''a'')"
      "demo_env bob 200" demo_externals 9 "''p''" "''ab''"]
  by (simp add: demo_kc_defs getEncryptedValue_def)

text \<open>
  C7. The limits the code enforces are: a key name of at least 1 and at most 100 bytes;
  a location and a cargo of at least 1 byte (the code sets no upper bound for these two).
  A call that violates them fails with the ValidationError of the first violated check,
  whatever the external libraries would answer (the theorem holds for every \<open>X\<close>, also
  one whose \<open>ECDSA.recover\<close> reverts and whose \<open>FHE.fromExternal\<close> rejects), so the check
  comes before signature verification and proof ingestion; the state and the total
  count are unchanged. Conversely a call that succeeds had metadata within the limits.
\<close>

theorem C7_metadata_validated_first:
  "(length n = 0 \<or> 100 < length n \<longrightarrow>
      storeKey X e n ev p sg s = Inl (if length n = 0 then KeyNameEmpty else KeyNameTooLong)
      \<and> (\<exists>err. storeKey X e n ev p sg s = Inl err \<and> kind err = ValidationError)
      \<and> kc_tx X s (e, StoreKey n ev p sg) = s
      \<and> getTotalKeyCount (kc_tx X s (e, StoreKey n ev p sg)) = getTotalKeyCount s)
   \<and> (storeKey X e n ev p sg s = Inr s' \<longrightarrow> 0 < length n \<and> length n \<le> 100)
   \<and> (length l = 0 \<or> length c = 0 \<longrightarrow>
      recordTemperature X e' l c ev' p' w sg' t = Inl (if length l = 0 then LocationEmpty else CargoEmpty)
      \<and> (\<exists>err. recordTemperature X e' l c ev' p' w sg' t = Inl err \<and> kind err = ValidationError)
      \<and> cc_tx X t (e', RecordTemperature l c ev' p' w sg') = t
      \<and> getTotalLogCount (cc_tx X t (e', RecordTemperature l c ev' p' w sg')) = getTotalLogCount t)
   \<and> (recordTemperature X e' l c ev' p' w sg' t = Inr t' \<longrightarrow> 0 < length l \<and> 0 < length c)"
proof (intro conjI impI)
  assume h: "length n = 0 \<or> 100 < length n"
  then show r: "storeKey X e n ev p sg s = Inl (if length n = 0 then KeyNameEmpty else KeyNameTooLong)"
    by (auto simp: storeKey_def)
  then show "\<exists>err. storeKey X e n ev p sg s = Inl err \<and> kind err = ValidationError"
    by simp
  from r show tx: "kc_tx X s (e, StoreKey n ev p sg) = s"
    by (simp add: kc_tx_def)
  then show "getTotalKeyCount (kc_tx X s (e, StoreKey n ev p sg)) = getTotalKeyCount s"
    by simp
next
  assume "storeKey X e n ev p sg s = Inr s'"
  from storeKey_success_guards [OF this] show "0 < length n" and "length n \<le> 100"
    by simp_all
next
  assume h: "length l = 0 \<or> length c = 0"
  then show r: "recordTemperature X e' l c ev' p' w sg' t
                  = Inl (if length l = 0 then LocationEmpty else CargoEmpty)"
    by (auto simp: recordTemperature_def)
  then show "\<exists>err. recordTemperature X e' l c ev' p' w sg' t = Inl err \<and> kind err = ValidationError"
    by simp
  from r show tx: "cc_tx X t (e', RecordTemperature l c ev' p' w sg') = t"
    by (simp add: cc_tx_def)
  then show "getTotalLogCount (cc_tx X t (e', RecordTemperature l c ev' p' w sg')) = getTotalLogCount t"
    by simp
next
  assume "recordTemperature X e' l c ev' p' w sg' t = Inr t'"
  from recordTemperature_success [OF this] show "0 < length l" and "0 < length c"
    by auto
qed

theorem C7_witness:
  "(length '''' = 0 \<or> 100 < length '''')
   \<and> storeKey demo_externals (demo_env alice 100) '''' 7 '''' '''' kc_init = Inl KeyNameEmpty
   \<and> getTotalKeyCount (kc_tx demo_externals kc_init (demo_env alice 100, StoreKey '''' 7 '''' '''')) = 0
   \<and> storeKey demo_externals (demo_env alice 100) ''k1'' 7 ''p'' ''a'' kc_init
        = Inr (kc_tx demo_externals kc_init (demo_env alice 100, StoreKey ''k1'' 7 ''p'' ''a''))
   \<and> (length ''Shanghai Port'' = 0 \<or> length '''' = 0)
   \<and> recordTemperature demo_externals (demo_env alice 100) ''Shanghai Port'' '''' 7 '''' False '''' cc_init
        = Inl CargoEmpty
   \<and> getTotalLogCount (cc_tx demo_externals cc_init
        (demo_env alice 100, RecordTemperature ''Shanghai Port'' '''' 7 '''' False '''')) = 0
   \<and> recordTemperature demo_externals (demo_env alice 100) ''LA Port'' ''Frozen Seafood'' 7 ''p'' False ''a'' cc_init
        = Inr (cc_tx demo_externals cc_init
            (demo_env alice 100, RecordTemperature ''LA Port'' ''Frozen Seafood'' 7 ''p'' False ''a''))"
  using C7_metadata_validated_first [of "''''" demo_externals "demo_env alice 100" 7 "''''" "''''" kc_init
      "kc_tx demo_externals kc_init (demo_env alice 100, StoreKey ''k1'' 7 ''p'' ''a'')"
      "''Shanghai Port''" "''''" "demo_env alice 100" 7 "''''" False "''''" cc_init
      "cc_tx demo_externals cc_init
            (demo_env alice 100, RecordTemperature ''LA Port'' ''Frozen Seafood'' 7 ''p'' False ''a'')"]
    C7_metadata_validated_first [of "''k1''" demo_externals "demo_env alice 100" 7 "''p''" "''a''" kc_init
      "kc_tx demo_externals kc_init (demo_env alice 100, StoreKey ''k1'' 7 ''p'' ''a'')"
      "''LA Port''" "''Frozen Seafood''" "demo_env alice 100" 7 "''p''" False "''a''" cc_init
      "cc_tx demo_externals cc_init
            (demo_env alice 100, RecordTemperature ''LA Port'' ''Frozen Seafood'' 7 ''p'' False ''a'')"]
  by (simp add: demo_kc_defs demo_cc_defs getTotalKeyCount_def getTotalLogCount_def)

text \<open>
  C8. In every state, in particular after any sequence of transactions from the empty
  ledger, \<open>getStats\<close> returns the number of stored records and the number of records
  among them whose \<open>isWarning\<close> is true; it is the linear scan of \<open>getStats_loop\<close>, a
  function of the state that returns no new state.
\<close>

theorem C8_stats_count_flagged_records:
  "getStats t = (length (p_logs t), length (filter isWarning (p_logs t)))
   \<and> fst (getStats t) = getTotalLogCount t
   \<and> snd (getStats t) = card {i. i < fst (getStats t) \<and> isWarning (p_logs t ! i)}
   \<and> getStats (cc_run X cc_init ctxs)
        = (cc_appended X cc_init ctxs, length (filter isWarning (p_logs (cc_run X cc_init ctxs))))"
proof -
  have a: "getStats t = (length (p_logs t), length (filter isWarning (p_logs t)))"
    by (rule getStats_eq)
  have b: "fst (getStats t) = getTotalLogCount t"
    by (simp add: a getTotalLogCount_def)
  have c: "snd (getStats t) = card {i. i < fst (getStats t) \<and> isWarning (p_logs t ! i)}"
    by (simp add: a length_filter_conv_card)
  have "length (p_logs (cc_run X cc_init ctxs)) = cc_appended X cc_init ctxs"
    by (simp add: length_cc_run cc_init_def)
  then have d: "getStats (cc_run X cc_init ctxs)
        = (cc_appended X cc_init ctxs, length (filter isWarning (p_logs (cc_run X cc_init ctxs))))"
    by (simp add: getStats_eq)
  from a b c d show ?thesis by blast
qed

theorem C8_witness:
  "getStats (cc_run demo_externals cc_init
      [(demo_env alice 100, RecordTemperature ''Shanghai Port'' ''Frozen Seafood - 500kg'' 7 ''p'' False ''a''),
       (demo_env alice 101, RecordTemperature ''Singapore Hub'' ''Frozen Seafood - 500kg'' 8 ''p'' True ''a''),
       (demo_env alice 102, RecordTemperature ''LA Port'' ''Frozen Seafood - 500kg'' 9 ''p'' False ''a'')])
     = (3, 1)"
  using C8_stats_count_flagged_records [of
      "cc_run demo_externals cc_init
      [(demo_env alice 100, RecordTemperature ''Shanghai Port'' ''Frozen Seafood - 500kg'' 7 ''p'' False ''a''),
       (demo_env alice 101, RecordTemperature ''Singapore Hub'' ''Frozen Seafood - 500kg'' 8 ''p'' True ''a''),
       (demo_env alice 102, RecordTemperature ''LA Port'' ''Frozen Seafood - 500kg'' 9 ''p'' False ''a'')]"
      demo_externals "[]"]
  by (simp add: demo_cc_defs)

lemma cc_tx_keeps_record:
  assumes i: "i < length (p_logs t)"
  shows "i < length (p_logs (cc_tx X t tx)) \<and> p_logs (cc_tx X t tx) ! i = p_logs t ! i"
proof (cases tx)
  case (Pair e c)
  show ?thesis
  proof (cases c)
    case (RecordTemperature l c' ev p w sg)
    show ?thesis
    proof (cases "recordTemperature X e l c' ev p w sg t")
      case (Inl err)
      with Pair RecordTemperature i show ?thesis by (simp add: cc_tx_def)
    next
      case (Inr t')
      from recordTemperature_success [OF Inr] obtain x where "p_logs t' = p_logs t @ [x]"
        by auto
      with Pair RecordTemperature Inr i show ?thesis by (simp add: cc_tx_def nth_append)
    qed
  qed
qed

lemma cc_run_keeps_record:
  "i < length (p_logs t) \<Longrightarrow>
     i < length (p_logs (cc_run X t txs)) \<and> p_logs (cc_run X t txs) ! i = p_logs t ! i"
proof (induction txs arbitrary: t)
  case Nil
  then show ?case by simp
next
  case (Cons tx txs)
  from cc_tx_keeps_record [OF Cons.prems, of X tx]
  have a: "i < length (p_logs (cc_tx X t tx))"
    and b: "p_logs (cc_tx X t tx) ! i = p_logs t ! i"
    by simp_all
  from Cons.IH [OF a] b show ?case by simp
qed

text \<open>
  C9. A record that exists keeps its index (its id), its owner, its key name and its
  \<open>createdAt\<close> through any sequence of transactions, and no transaction shortens the
  array; \<open>storeKey\<close> creates the record with \<open>updatedAt\<close> equal to \<open>createdAt\<close>; a
  successful \<open>updateKey\<close> changes, in the record array, only \<open>encryptedValue\<close> and
  \<open>updatedAt\<close> of the record at its id, and leaves the owner index as it was. A record of
  the tracker never changes at all.
\<close>

theorem C9_record_fields_immutable:
  "(i < length (p_keys s) \<longrightarrow>
       i < length (p_keys (kc_run X s txs))
     \<and> owner (p_keys (kc_run X s txs) ! i) = owner (p_keys s ! i)
     \<and> keyName (p_keys (kc_run X s txs) ! i) = keyName (p_keys s ! i)
     \<and> createdAt (p_keys (kc_run X s txs) ! i) = createdAt (p_keys s ! i))
   \<and> length (p_keys s) \<le> length (p_keys (kc_run X s txs))
   \<and> (storeKey X e n ev p sg s = Inr s' \<longrightarrow>
       owner (p_keys s' ! length (p_keys s)) = msg_sender e
     \<and> createdAt (p_keys s' ! length (p_keys s)) = ucast (block_timestamp e)
     \<and> updatedAt (p_keys s' ! length (p_keys s)) = createdAt (p_keys s' ! length (p_keys s)))
   \<and> (updateKey X e j ev p sg s = Inr s' \<longrightarrow>
       (\<exists>h. FHE_fromExternal X e ev p = Some h
          \<and> p_keys s' = (p_keys s)[j := (p_keys s ! j)\<lparr>encryptedValue := h,
                                        updatedAt := ucast (block_timestamp e)\<rparr>])
     \<and> p_keysOf s' = p_keysOf s)
   \<and> (i < length (p_logs t) \<longrightarrow>
       i < length (p_logs (cc_run X t ctxs))
     \<and> p_logs (cc_run X t ctxs) ! i = p_logs t ! i)
   \<and> length (p_logs t) \<le> length (p_logs (cc_run X t ctxs))"
proof (intro conjI impI)
  assume i: "i < length (p_keys s)"
  from kc_run_keeps_fields [OF i, of X txs]
  show "i < length (p_keys (kc_run X s txs))"
    and "owner (p_keys (kc_run X s txs) ! i) = owner (p_keys s ! i)"
    and "keyName (p_keys (kc_run X s txs) ! i) = keyName (p_keys s ! i)"
    and "createdAt (p_keys (kc_run X s txs) ! i) = createdAt (p_keys s ! i)"
    by simp_all
next
  show "length (p_keys s) \<le> length (p_keys (kc_run X s txs))"
    by (simp add: length_kc_run)
next
  assume st: "storeKey X e n ev p sg s = Inr s'"
  from storeKey_success [OF st]
  show "owner (p_keys s' ! length (p_keys s)) = msg_sender e"
    and "createdAt (p_keys s' ! length (p_keys s)) = ucast (block_timestamp e)"
    and "updatedAt (p_keys s' ! length (p_keys s)) = createdAt (p_keys s' ! length (p_keys s))"
    by auto
next
  assume u: "updateKey X e j ev p sg s = Inr s'"
  from updateKey_success [OF u]
  show "\<exists>h. FHE_fromExternal X e ev p = Some h
          \<and> p_keys s' = (p_keys s)[j := (p_keys s ! j)\<lparr>encryptedValue := h,
                                        updatedAt := ucast (block_timestamp e)\<rparr>]"
    and "p_keysOf s' = p_keysOf s"
    by auto
next
  assume i: "i < length (p_logs t)"
  from cc_run_keeps_record [OF i, of X ctxs]
  show "i < length (p_logs (cc_run X t ctxs))"
    and "p_logs (cc_run X t ctxs) ! i = p_logs t ! i"
    by simp_all
next
  show "length (p_logs t) \<le> length (p_logs (cc_run X t ctxs))"
    by (simp add: length_cc_run)
qed

theorem C9_witness:
  "0 < length (p_keys (kc_tx demo_externals kc_init (demo_env alice 100, StoreKey ''k1'' 7 ''p'' ''a'')))
   \<and> getKeyMeta (kc_run demo_externals
        (kc_tx demo_externals kc_init (demo_env alice 100, StoreKey ''k1'' 7 ''p'' ''a''))
        [(demo_env alice 200, UpdateKey 0 8 ''p'' ''a''),
         (demo_env bob 201, StoreKey ''k2'' 9 ''p'' ''ab'')]) 0
      = Inr (alice, ''k1'', 100, 200)
   \<and> storeKey demo_externals (demo_env alice 100) ''k1'' 7 ''p'' ''a'' kc_init
      = Inr (kc_tx demo_externals kc_init (demo_env alice 100, StoreKey ''k1'' 7 ''p'' ''a''))
   \<and> getKeyMeta (kc_tx demo_externals kc_init (demo_env alice 100, StoreKey ''k1'' 7 ''p'' ''a'')) 0
      = Inr (alice, ''k1'', 100, 100)
   \<and> updateKey demo_externals (demo_env alice 200) 0 8 ''p'' ''a''
        (kc_tx demo_externals kc_init (demo_env alice 100, StoreKey ''k1'' 7 ''p'' ''a''))
      = Inr (kc_tx demo_externals
              (kc_tx demo_externals kc_init (demo_env alice 100, StoreKey ''k1'' 7 ''p'' ''a''))
              (demo_env alice 200, UpdateKey 0 8 ''p'' ''a''))
   \<and> getEncryptedValue (kc_tx demo_externals
              (kc_tx demo_externals kc_init (demo_env alice 100, StoreKey ''k1'' 7 ''p'' ''a''))
              (demo_env alice 200, UpdateKey 0 8 ''p'' ''a'')) 0 = Inr 8
   \<and> 0 < length (p_logs (cc_tx demo_externals cc_init
        (demo_env alice 100, RecordTemperature ''LA Port'' ''Frozen Seafood'' 7 ''p'' False ''a'')))
   \<and> getLogMeta (cc_run demo_externals (cc_tx demo_externals cc_init
        (demo_env alice 100, RecordTemperature ''LA Port'' ''Frozen Seafood'' 7 ''p'' False ''a''))
        [(demo_env bob 101, RecordTemperature ''Singapore Hub'' ''Frozen Seafood'' 8 ''p'' True ''ab'')]) 0
      = Inr (alice, ''LA Port'', ''Frozen Seafood'', 100, False)"
  using C9_record_fields_immutable [where i = 0
      and s = "kc_tx demo_externals kc_init (demo_env alice 100, StoreKey ''k1'' 7 ''p'' ''a'')"
      and X = demo_externals
      and txs = "[(demo_env alice 200, UpdateKey 0 8 ''p'' ''a''),
        (demo_env bob 201, StoreKey ''k2'' 9 ''p'' ''ab'')]"
      and t = "cc_tx demo_externals cc_init
        (demo_env alice 100, RecordTemperature ''LA Port'' ''Frozen Seafood'' 7 ''p'' False ''a'')"
      and ctxs = "[(demo_env bob 101, RecordTemperature ''Singapore Hub'' ''Frozen Seafood'' 8 ''p'' True ''ab'')]"]
    C9_record_fields_immutable [where X = demo_externals and s = kc_init
      and e = "demo_env alice 100" and n = "''k1''" and ev = 7 and p = "''p''" and sg = "''a''"
      and s' = "kc_tx demo_externals kc_init (demo_env alice 100, StoreKey ''k1'' 7 ''p'' ''a'')"]
    C9_record_fields_immutable [where X = demo_externals
      and s = "kc_tx demo_externals kc_init (demo_env alice 100, StoreKey ''k1'' 7 ''p'' ''a'')"
      and e = "demo_env alice 200" and j = 0 and ev = 8 and p = "''p''" and sg = "''a''"
      and s' = "kc_tx demo_externals
                  (kc_tx demo_externals kc_init (demo_env alice 100, StoreKey ''k1'' 7 ''p'' ''a''))
                  (demo_env alice 200, UpdateKey 0 8 ''p'' ''a'')"]
  by (simp add: demo_kc_defs demo_cc_defs getKeyMeta_def getLogMeta_def getEncryptedValue_def)

lemma verifyStoreSignature_sender:
  "msg_sender e' = msg_sender e \<Longrightarrow> verifyStoreSignature X e' n sg = verifyStoreSignature X e n sg"
  by (simp add: verifyStoreSignature_def cong: sum.case_cong)

lemma storeKey_Inl_iff:
  "storeKey X e n ev p sg s = Inl err \<longleftrightarrow>
     (if length n = 0 then err = KeyNameEmpty
      else if 100 < length n then err = KeyNameTooLong
      else case verifyStoreSignature X e n sg of
             Inl er \<Rightarrow> err = er
           | Inr u \<Rightarrow> FHE_fromExternal X e ev p = None \<and> err = FHEInputRejected)"
proof (cases "verifyStoreSignature X e n sg")
  case (Inl er)
  then show ?thesis by (auto simp: storeKey_def)
next
  case (Inr u)
  then show ?thesis
    by (cases "FHE_fromExternal X e ev p") (auto simp: storeKey_def Let_def)
qed

lemma storeKey_accepts:
  assumes "0 < length n" and "length n \<le> 100" and "verifyStoreSignature X e n sg = Inr ()"
    and "FHE_fromExternal X e ev p = Some h"
  shows "\<exists>s'. storeKey X e n ev p sg s = Inr s'
           \<and> length (p_keys s') = Suc (length (p_keys s))
           \<and> owner (p_keys s' ! length (p_keys s)) = msg_sender e
           \<and> keyName (p_keys s' ! length (p_keys s)) = n
           \<and> encryptedValue (p_keys s' ! length (p_keys s)) = h"
  using assms by (simp add: storeKey_def Let_def)



lemma storeKey_error_payload_free:
  assumes ne: "err \<noteq> FHEInputRejected" and v: "verifyStoreSignature X e' n sg = verifyStoreSignature X e n sg"
  shows "(storeKey X e n ev p sg s = Inl err) = (storeKey X e' n ev' p' sg s' = Inl err)"
    unfolding storeKey_Inl_iff v
    using ne by (cases "verifyStoreSignature X e n sg") simp_all


lemma storeKey_signature_reusable:
  assumes sender: "msg_sender e' = msg_sender e"
    and st: "storeKey X e n ev p sg s = Inr sa"
    and fhe: "FHE_fromExternal X e' ev' p' = Some h'"
  shows "\<exists>sb. storeKey X e' n ev' p' sg s' = Inr sb
           \<and> length (p_keys sb) = Suc (length (p_keys s'))
           \<and> owner (p_keys sb ! length (p_keys s')) = msg_sender e
           \<and> keyName (p_keys sb ! length (p_keys s')) = n
           \<and> encryptedValue (p_keys sb ! length (p_keys s')) = h'"
proof -
  from storeKey_success_guards [OF st]
  have g: "0 < length n" "length n \<le> 100" "verifyStoreSignature X e n sg = Inr ()"
    by simp_all
  have v: "verifyStoreSignature X e' n sg = Inr ()"
    using g(3) verifyStoreSignature_sender [OF sender, of X n sg] by simp
  from storeKey_accepts [OF g(1) g(2) v fhe, of s'] obtain sb where
    "storeKey X e' n ev' p' sg s' = Inr sb"
    "length (p_keys sb) = Suc (length (p_keys s'))"
    "owner (p_keys sb ! length (p_keys s')) = msg_sender e'"
    "keyName (p_keys sb ! length (p_keys s')) = n"
    "encryptedValue (p_keys sb ! length (p_keys s')) = h'"
    by blast
  then show ?thesis
    by (intro exI [of _ sb]) (simp add: sender)
qed

text \<open>
  C10. The check of the store signature reads the sender, the key name and the signature
  only. For a fixed sender, name and signature, whether \<open>storeKey\<close> fails with a
  validation, recovery or signature error does not depend on the encrypted input, the
  proof, the state or the block; and a signature that let one \<open>storeKey\<close> call through
  lets through every later call of the same sender under that name, in any state and
  with any payload that \<open>FHE.fromExternal\<close> accepts.
\<close>

theorem C10_store_signature_ignores_payload:
  "(msg_sender e' = msg_sender e \<longrightarrow>
      verifyStoreSignature X e' n sg = verifyStoreSignature X e n sg)
   \<and> (msg_sender e' = msg_sender e \<and> err \<noteq> FHEInputRejected \<longrightarrow>
        (storeKey X e n ev p sg s = Inl err) = (storeKey X e' n ev' p' sg s' = Inl err))
   \<and> (msg_sender e' = msg_sender e \<and> storeKey X e n ev p sg s = Inr sa
        \<and> FHE_fromExternal X e' ev' p' = Some h' \<longrightarrow>
        (\<exists>sb. storeKey X e' n ev' p' sg s' = Inr sb
           \<and> length (p_keys sb) = Suc (length (p_keys s'))
           \<and> owner (p_keys sb ! length (p_keys s')) = msg_sender e
           \<and> keyName (p_keys sb ! length (p_keys s')) = n
           \<and> encryptedValue (p_keys sb ! length (p_keys s')) = h'))"
proof (intro conjI impI)
  assume "msg_sender e' = msg_sender e"
  then show "verifyStoreSignature X e' n sg = verifyStoreSignature X e n sg"
    by (rule verifyStoreSignature_sender)
next
  assume h: "msg_sender e' = msg_sender e \<and> err \<noteq> FHEInputRejected"
  from h have v: "verifyStoreSignature X e' n sg = verifyStoreSignature X e n sg"
    using verifyStoreSignature_sender [of e' e X n sg] by blast
  from h have ne: "err \<noteq> FHEInputRejected"
    by blast
  show "(storeKey X e n ev p sg s = Inl err) = (storeKey X e' n ev' p' sg s' = Inl err)"
    by (rule storeKey_error_payload_free [OF ne v])
next
  assume h: "msg_sender e' = msg_sender e \<and> storeKey X e n ev p sg s = Inr sa
        \<and> FHE_fromExternal X e' ev' p' = Some h'"
  from h have sender: "msg_sender e' = msg_sender e"
    by blast
  from h have st: "storeKey X e n ev p sg s = Inr sa"
    by blast
  from h have fhe: "FHE_fromExternal X e' ev' p' = Some h'"
    by blast
  show "\<exists>sb. storeKey X e' n ev' p' sg s' = Inr sb
           \<and> length (p_keys sb) = Suc (length (p_keys s'))
           \<and> owner (p_keys sb ! length (p_keys s')) = msg_sender e
           \<and> keyName (p_keys sb ! length (p_keys s')) = n
           \<and> encryptedValue (p_keys sb ! length (p_keys s')) = h'"
    by (rule storeKey_signature_reusable [OF sender st fhe])
qed

theorem C10_witness:
  "msg_sender (demo_env alice 500) = msg_sender (demo_env alice 100)
   \<and> storeKey demo_externals (demo_env alice 100) ''k1'' 7 ''p'' ''a'' kc_init
      = Inr (kc_tx demo_externals kc_init (demo_env alice 100, StoreKey ''k1'' 7 ''p'' ''a''))
   \<and> FHE_fromExternal demo_externals (demo_env alice 500) 99 ''other proof'' = Some 99
   \<and> storeKey demo_externals (demo_env alice 500) ''k1'' 99 ''other proof'' ''a''
        (kc_tx demo_externals kc_init (demo_env alice 100, StoreKey ''k1'' 7 ''p'' ''a''))
      = Inr (kc_tx demo_externals
              (kc_tx demo_externals kc_init (demo_env alice 100, StoreKey ''k1'' 7 ''p'' ''a''))
              (demo_env alice 500, StoreKey ''k1'' 99 ''other proof'' ''a''))
   \<and> getEncryptedValue (kc_tx demo_externals
              (kc_tx demo_externals kc_init (demo_env alice 100, StoreKey ''k1'' 7 ''p'' ''a''))
              (demo_env alice 500, StoreKey ''k1'' 99 ''other proof'' ''a'')) 1 = Inr 99
   \<and> InvalidStoreSignature \<noteq> FHEInputRejected
   \<and> storeKey demo_externals (demo_env alice 100) ''k1'' 7 ''p'' ''ab'' kc_init = Inl InvalidStoreSignature
   \<and> storeKey demo_externals (demo_env alice 500) ''k1'' 99 ''other proof'' ''ab''
        (kc_tx demo_externals kc_init (demo_env alice 100, StoreKey ''k1'' 7 ''p'' ''a''))
      = Inl InvalidStoreSignature"
  using C10_store_signature_ignores_payload [where e' = "demo_env alice 500"
      and e = "demo_env alice 100" and X = demo_externals and n = "''k1''" and sg = "''a''"
      and ev = 7 and p = "''p''" and s = kc_init and ev' = 99 and p' = "''other proof''"
      and s' = "kc_tx demo_externals kc_init (demo_env alice 100, StoreKey ''k1'' 7 ''p'' ''a'')"
      and sa = "kc_tx demo_externals kc_init (demo_env alice 100, StoreKey ''k1'' 7 ''p'' ''a'')"
      and h' = 99 and err = InvalidStoreSignature]
    C10_store_signature_ignores_payload [where e' = "demo_env alice 500"
      and e = "demo_env alice 100" and X = demo_externals and n = "''k1''" and sg = "''ab''"
      and ev = 7 and p = "''p''" and s = kc_init and ev' = 99 and p' = "''other proof''"
      and s' = "kc_tx demo_externals kc_init (demo_env alice 100, StoreKey ''k1'' 7 ''p'' ''a'')"
      and err = InvalidStoreSignature]
  by (simp add: demo_kc_defs getEncryptedValue_def)

end
